theory Spec2Isabelle
  imports Complex_Main "HOL-Library.Word"
begin

section \<open>The diffusion process of \<^verbatim>\<open>ddpm.py\<close>\<close>

text \<open>
  The class \<^verbatim>\<open>Diffusion\<close> of \<^verbatim>\<open>src/ddpm.py\<close> is embedded as HOL functions.
  Conventions of the embedding:
  \<^item> what the program takes from the torch library and from the machine is a parameter
    \<open>T\<close> of every function, a record \<open>torch\<close>: the arithmetic of the tensor elements
    (32-bit floats in the program), the conversions, and which tensors and devices the
    machine has. The functions are the same for every \<open>T\<close>; two instances are given,
    \<open>exact\<close> (real numbers, nothing rounded) and \<open>float32\<close> (round to nearest on the
    finite values);
  \<^item> a 4-dimensional tensor \<^verbatim>\<open>(n, c, h, w)\<close> is a four times nested list, a 1-dimensional
    tensor a list;
  \<^item> a Python exception is a value \<open>Inl e\<close> of \<open>error + 'a\<close>;
  \<^item> the mutable things a method can touch are gathered in a record \<open>world\<close>: the
    \<^verbatim>\<open>Diffusion\<close> object, the random generator and the predictor (\<^verbatim>\<open>model\<close>);
    a method takes the world and returns the new one with its result;
  \<^item> the tensors a method receives (the images and timesteps of \<^verbatim>\<open>noise_images\<close>, the
    output of the predictor) are on the device of the object; the output of
    \<^verbatim>\<open>logging\<close> and \<^verbatim>\<open>tqdm\<close> is not modelled.
\<close>

subsection \<open>Errors\<close>

datatype error = IndexError | RuntimeError | PredictorError

definition bindE :: "error + 'a \<Rightarrow> ('a \<Rightarrow> error + 'b) \<Rightarrow> error + 'b" where
  "bindE m k = (case m of Inl e \<Rightarrow> Inl e | Inr v \<Rightarrow> k v)"

fun mapE :: "('a \<Rightarrow> error + 'b) \<Rightarrow> 'a list \<Rightarrow> error + 'b list" where
  "mapE f [] = Inr []"
| "mapE f (x # xs) =
     (case f x of Inl e \<Rightarrow> Inl e
      | Inr y \<Rightarrow> (case mapE f xs of Inl e \<Rightarrow> Inl e | Inr ys \<Rightarrow> Inr (y # ys)))"

subsection \<open>The torch library and the machine\<close>

text \<open>
  \<^item> \<open>t_scalar v\<close>: the Python number \<open>v\<close> as a tensor element;
  \<^item> \<open>t_add\<close>, \<open>t_sub\<close>, \<open>t_mul\<close>, \<open>t_div\<close>, \<open>t_sqrt\<close>: the elementwise operations;
  \<^item> \<open>t_clamp lo hi\<close>: \<^verbatim>\<open>clamp(lo, hi)\<close> on one element;
  \<^item> \<open>t_uint8\<close>, \<open>t_long\<close>: the conversions \<^verbatim>\<open>.type(torch.uint8)\<close> and \<^verbatim>\<open>.long()\<close>;
  \<^item> \<open>t_fits v\<close>: the Python number \<open>v\<close> converts to an element without overflow
    (\<^verbatim>\<open>torch.linspace\<close> raises on a bound that does not);
  \<^item> \<open>t_alloc k\<close>: a tensor of \<open>k\<close> elements can be created (the size is a 64-bit
    integer and the memory suffices);
  \<^item> \<open>t_available dev\<close>: \<^verbatim>\<open>.to(dev)\<close> succeeds;
  \<^item> \<open>t_host dev\<close>: \<open>dev\<close> is the device where \<^verbatim>\<open>torch.randn\<close> and \<^verbatim>\<open>torch.zeros\<close>
    create their tensors when no device is given.
\<close>

record 'e torch =
  t_scalar :: "real \<Rightarrow> 'e"
  t_add :: "'e \<Rightarrow> 'e \<Rightarrow> 'e"
  t_sub :: "'e \<Rightarrow> 'e \<Rightarrow> 'e"
  t_mul :: "'e \<Rightarrow> 'e \<Rightarrow> 'e"
  t_div :: "'e \<Rightarrow> 'e \<Rightarrow> 'e"
  t_sqrt :: "'e \<Rightarrow> 'e"
  t_clamp :: "real \<Rightarrow> real \<Rightarrow> 'e \<Rightarrow> 'e"
  t_uint8 :: "'e \<Rightarrow> 8 word"
  t_long :: "'e \<Rightarrow> int"
  t_fits :: "real \<Rightarrow> bool"
  t_alloc :: "nat \<Rightarrow> bool"
  t_available :: "string \<Rightarrow> bool"
  t_host :: "string \<Rightarrow> bool"

definition int64 :: "int \<Rightarrow> bool" where
  "int64 v \<longleftrightarrow> - (2 ^ 63) \<le> v \<and> v < 2 ^ 63"

subsection \<open>The noise schedule (\<^verbatim>\<open>__init__\<close>, \<^verbatim>\<open>prepare_noise_schedule\<close>)\<close>

record 'e diffusion =
  noise_steps :: int
  beta_start :: real
  beta_end :: real
  img_size :: int
  device :: string
  beta :: "'e list"
  alpha :: "'e list"
  alpha_hat :: "'e list"

text \<open>
  \<^verbatim>\<open>torch.linspace(start, end, steps)\<close>. A bound that overflows, a negative number of
  steps and a tensor that cannot be created raise RuntimeError. A single point is
  \<open>start\<close>. Otherwise the step is \<open>(end - start) / (steps - 1)\<close> and the point at index
  \<open>i\<close> is \<open>start + step * i\<close> in the first half and \<open>end - step * (steps - 1 - i)\<close> in
  the second, every operation in the arithmetic of the elements.
\<close>

definition linspace :: "'e torch \<Rightarrow> real \<Rightarrow> real \<Rightarrow> int \<Rightarrow> error + 'e list" where
  "linspace T start stop steps =
     (if \<not> t_fits T start \<or> \<not> t_fits T stop \<or> steps < 0 \<or> \<not> t_alloc T (nat steps)
      then Inl RuntimeError
      else if steps = 1 then Inr [t_scalar T start]
      else
        (let step = t_div T (t_sub T (t_scalar T stop) (t_scalar T start))
                      (t_scalar T (real_of_int steps - 1))
         in Inr (map (\<lambda>i. if int i < steps div 2
                           then t_add T (t_scalar T start) (t_mul T step (t_scalar T (real i)))
                           else t_sub T (t_scalar T stop)
                                  (t_mul T step (t_scalar T (real (nat steps - i - 1)))))
                  [0..<nat steps])))"

text \<open>\<^verbatim>\<open>torch.cumprod(xs, dim=0)\<close>, a running product in the arithmetic of the elements.\<close>

fun cumprod_from :: "'e torch \<Rightarrow> 'e \<Rightarrow> 'e list \<Rightarrow> 'e list" where
  "cumprod_from T acc [] = []"
| "cumprod_from T acc (x # xs) = t_mul T acc x # cumprod_from T (t_mul T acc x) xs"

fun cumprod :: "'e torch \<Rightarrow> 'e list \<Rightarrow> 'e list" where
  "cumprod T [] = []"
| "cumprod T (x # xs) = x # cumprod_from T x xs"

definition prepare_noise_schedule :: "'e torch \<Rightarrow> 'e diffusion \<Rightarrow> error + 'e list" where
  "prepare_noise_schedule T d = linspace T (beta_start d) (beta_end d) (noise_steps d)"

text \<open>
  \<^verbatim>\<open>Diffusion.__init__\<close>: the five parameters are stored, then the three sequences are
  derived. There is no check of the parameters; the exceptions are those of
  \<^verbatim>\<open>torch.linspace\<close> and of \<^verbatim>\<open>.to(device)\<close>.
\<close>

definition init :: "'e torch \<Rightarrow> int \<Rightarrow> real \<Rightarrow> real \<Rightarrow> int \<Rightarrow> string \<Rightarrow> error + 'e diffusion" where
  "init T ns bs be sz dev =
     (let d = \<lparr>noise_steps = ns, beta_start = bs, beta_end = be, img_size = sz,
               device = dev, beta = [], alpha = [], alpha_hat = []\<rparr>
      in case prepare_noise_schedule T d of
           Inl e \<Rightarrow> Inl e
         | Inr b \<Rightarrow>
             if \<not> t_available T dev then Inl RuntimeError
             else
               (let a = map (\<lambda>v. t_sub T (t_scalar T 1) v) b
                in Inr (d\<lparr>beta := b, alpha := a, alpha_hat := cumprod T a\<rparr>)))"

text \<open>The parameters the specification calls valid.\<close>

definition valid_params :: "int \<Rightarrow> real \<Rightarrow> real \<Rightarrow> bool" where
  "valid_params ns bs be \<longleftrightarrow> 2 \<le> ns \<and> 0 < bs \<and> bs < be \<and> be < 1"

text \<open>
  When the construction raises nothing: the bounds fit, the number of steps is not
  negative, the tensors can be created and the device is available.
\<close>

definition constructible :: "'e torch \<Rightarrow> int \<Rightarrow> real \<Rightarrow> real \<Rightarrow> string \<Rightarrow> bool" where
  "constructible T ns bs be dev \<longleftrightarrow>
     t_fits T bs \<and> t_fits T be \<and> 0 \<le> ns \<and> t_alloc T (nat ns) \<and> t_available T dev"

subsection \<open>Tensors\<close>

type_synonym 'a tensor4 = "'a list list list list"

definition tmap :: "('a \<Rightarrow> 'b) \<Rightarrow> 'a tensor4 \<Rightarrow> 'b tensor4" where
  "tmap f = map (map (map (map f)))"

definition tmap2 :: "('a \<Rightarrow> 'b \<Rightarrow> 'c) \<Rightarrow> 'a tensor4 \<Rightarrow> 'b tensor4 \<Rightarrow> 'c tensor4" where
  "tmap2 f = map2 (map2 (map2 (map2 f)))"

text \<open>
  The shape \<^verbatim>\<open>(n, c, h, w)\<close> of a tensor. Nested lists can be ragged, torch tensors
  cannot: the theorems about elementwise operations assume a shape.
\<close>

definition has_shape :: "nat \<Rightarrow> nat \<Rightarrow> nat \<Rightarrow> nat \<Rightarrow> 'a tensor4 \<Rightarrow> bool" where
  "has_shape n c h w x \<longleftrightarrow>
     length x = n \<and>
     list_all (\<lambda>img. length img = c \<and>
       list_all (\<lambda>plane. length plane = h \<and> list_all (\<lambda>row. length row = w) plane) img) x"

text \<open>
  Indexing a 1-dimensional tensor with one index, as Python and torch do: an index
  \<open>i\<close> with \<open>-n \<le> i < 0\<close> counts from the end, an index outside \<open>[-n, n)\<close> raises
  IndexError. \<^verbatim>\<open>xs[t]\<close> with an index tensor \<open>t\<close> looks every entry up.
\<close>

definition index1 :: "'a list \<Rightarrow> int \<Rightarrow> error + 'a" where
  "index1 xs i =
     (let n = int (length xs)
      in if - n \<le> i \<and> i < n then Inr (xs ! nat (if i < 0 then i + n else i))
         else Inl IndexError)"

definition index_select :: "'a list \<Rightarrow> int list \<Rightarrow> error + 'a list" where
  "index_select xs t = mapE (index1 xs) t"

text \<open>\<^verbatim>\<open>v[:, None, None, None]\<close>: a vector of length \<open>n\<close> becomes a tensor \<^verbatim>\<open>(n, 1, 1, 1)\<close>.\<close>

definition unsqueeze3 :: "'a list \<Rightarrow> 'a tensor4" where
  "unsqueeze3 v = map (\<lambda>c. [[[c]]]) v"

text \<open>
  Broadcasting of a binary operation along one dimension: sizes that agree are paired,
  a size of 1 is repeated, anything else raises RuntimeError. An elementwise operation
  of two 4-dimensional tensors broadcasts along each of the four dimensions.
\<close>

definition broadcast :: "('a \<Rightarrow> 'b \<Rightarrow> error + 'c) \<Rightarrow> 'a list \<Rightarrow> 'b list \<Rightarrow> error + 'c list" where
  "broadcast f xs ys =
     (if length xs = length ys then mapE (\<lambda>(x, y). f x y) (zip xs ys)
      else if length xs = 1 then mapE (f (hd xs)) ys
      else if length ys = 1 then mapE (\<lambda>x. f x (hd ys)) xs
      else Inl RuntimeError)"

definition tensor_op :: "('e \<Rightarrow> 'e \<Rightarrow> 'e) \<Rightarrow> 'e tensor4 \<Rightarrow> 'e tensor4 \<Rightarrow> error + 'e tensor4" where
  "tensor_op f = broadcast (broadcast (broadcast (broadcast (\<lambda>a b. Inr (f a b)))))"

definition tmul :: "'e torch \<Rightarrow> 'e tensor4 \<Rightarrow> 'e tensor4 \<Rightarrow> error + 'e tensor4" where
  "tmul T = tensor_op (t_mul T)"

definition tdiv :: "'e torch \<Rightarrow> 'e tensor4 \<Rightarrow> 'e tensor4 \<Rightarrow> error + 'e tensor4" where
  "tdiv T = tensor_op (t_div T)"

definition tadd :: "'e torch \<Rightarrow> 'e tensor4 \<Rightarrow> 'e tensor4 \<Rightarrow> error + 'e tensor4" where
  "tadd T = tensor_op (t_add T)"

definition tsub :: "'e torch \<Rightarrow> 'e tensor4 \<Rightarrow> 'e tensor4 \<Rightarrow> error + 'e tensor4" where
  "tsub T = tensor_op (t_sub T)"

text \<open>
  \<^verbatim>\<open>torch.zeros(size)\<close> and the like: a tensor filled with one value; a negative size
  and a tensor that cannot be created raise RuntimeError.
\<close>

definition full4 :: "'e torch \<Rightarrow> int \<Rightarrow> int \<Rightarrow> int \<Rightarrow> int \<Rightarrow> 'a \<Rightarrow> error + 'a tensor4" where
  "full4 T n c h w v =
     (if n < 0 \<or> c < 0 \<or> h < 0 \<or> w < 0 \<or> \<not> t_alloc T (nat (n * c * h * w))
      then Inl RuntimeError
      else Inr (replicate (nat n) (replicate (nat c) (replicate (nat h) (replicate (nat w) v)))))"

text \<open>
  \<^verbatim>\<open>(torch.ones(n) * i).long().to(device)\<close>, line 49: \<open>n\<close> ones are multiplied by the
  counter in the arithmetic of the elements and converted to integers, so every
  entry is \<open>counter T i\<close>, the counter after its passage through the elements. A
  counter that is no 64-bit integer raises.
\<close>

definition counter :: "'e torch \<Rightarrow> int \<Rightarrow> int" where
  "counter T i = t_long T (t_mul T (t_scalar T 1) (t_scalar T (real_of_int i)))"

definition timesteps :: "'e torch \<Rightarrow> int \<Rightarrow> int \<Rightarrow> string \<Rightarrow> error + int list" where
  "timesteps T n i dev =
     (if n < 0 \<or> \<not> t_alloc T (nat n) \<or> \<not> int64 i \<or> \<not> t_available T dev
      then Inl RuntimeError
      else Inr (replicate (nat n) (counter T i)))"

subsection \<open>The random generator\<close>

text \<open>
  The generator is the sequence of its future draws and a position in it: the draw at
  position \<open>k\<close> is \<open>normals g k\<close> when a standard-normal value is asked for and
  \<open>raws g k\<close> when a raw integer is. Which values come is not modelled, only that
  each draw takes the next one.
\<close>

record 'e rng =
  normals :: "nat \<Rightarrow> 'e"
  raws :: "nat \<Rightarrow> nat"
  pos :: nat

definition randn1 :: "'a \<Rightarrow> 'e rng \<Rightarrow> 'e \<times> 'e rng" where
  "randn1 _ g = (normals g (pos g), g\<lparr>pos := Suc (pos g)\<rparr>)"

fun draw_each :: "('a \<Rightarrow> 'e rng \<Rightarrow> 'b \<times> 'e rng) \<Rightarrow> 'a list \<Rightarrow> 'e rng \<Rightarrow> 'b list \<times> 'e rng" where
  "draw_each f [] g = ([], g)"
| "draw_each f (x # xs) g =
     (let (y, g1) = f x g; (ys, g2) = draw_each f xs g1 in (y # ys, g2))"

text \<open>\<^verbatim>\<open>torch.randn_like(x)\<close>: one fresh draw for each element of \<open>x\<close>, in row-major order.\<close>

definition randn_like :: "'a tensor4 \<Rightarrow> 'e rng \<Rightarrow> 'e tensor4 \<times> 'e rng" where
  "randn_like = draw_each (draw_each (draw_each (draw_each randn1)))"

text \<open>\<^verbatim>\<open>torch.randn((n, c, h, w))\<close>.\<close>

definition randn ::
  "'e torch \<Rightarrow> int \<Rightarrow> int \<Rightarrow> int \<Rightarrow> int \<Rightarrow> 'e rng \<Rightarrow> (error + 'e tensor4) \<times> 'e rng" where
  "randn T n c h w g =
     (case full4 T n c h w () of
        Inl e \<Rightarrow> (Inl e, g)
      | Inr z \<Rightarrow> (let (r, g1) = randn_like z g in (Inr r, g1)))"


subsection \<open>The world: the object, the generator and the predictor\<close>

text \<open>
  The predictor is a \<^verbatim>\<open>torch.nn.Module\<close>: it has a training flag, set by \<^verbatim>\<open>train()\<close> and
  cleared by \<^verbatim>\<open>eval()\<close>, and a state \<open>'s\<close> of its own. Its code is a function
  \<open>forward\<close> of the flag, the state, the images and the timesteps, which returns the
  predicted noise or raises, and the new state.
\<close>

type_synonym ('e, 's) forward =
  "bool \<Rightarrow> 's \<Rightarrow> 'e tensor4 \<Rightarrow> int list \<Rightarrow> (error + 'e tensor4) \<times> 's"

record ('e, 's) world =
  self :: "'e diffusion"
  gen :: "'e rng"
  training :: bool
  net :: 's

text \<open>
  A predictor that records its invocations: it answers as \<open>model\<close> does and appends
  the flag and the arguments of every call to a list kept in its own state.
\<close>

definition spy ::
  "('e, 's) forward \<Rightarrow> ('e, 's \<times> (bool \<times> 'e tensor4 \<times> int list) list) forward" where
  "spy model m st x t =
     (case model m (fst st) x t of (r, s1) \<Rightarrow> (r, (s1, snd st @ [(m, x, t)])))"

text \<open>
  The world of a recording predictor, seen without the records: the world of the
  predictor it wraps.
\<close>

definition plain :: "('e, 's \<times> 'l) world \<Rightarrow> ('e, 's) world" where
  "plain w = \<lparr>self = self w, gen = gen w, training = training w, net = fst (net w)\<rparr>"

subsection \<open>\<^verbatim>\<open>noise_images\<close>\<close>

text \<open>
  Lines 31 to 35. The two lookups come first and raise IndexError; then the noise is
  drawn; then the four factors are multiplied, from left to right:
  \<^verbatim>\<open>sqrt_alpha_hat * x * sqrt_cum_sinus_alpha_hat * epsilon\<close>.
\<close>

definition noise_images ::
  "'e torch \<Rightarrow> 'e tensor4 \<Rightarrow> int list \<Rightarrow> ('e, 's) world \<Rightarrow>
     (error + 'e tensor4 \<times> 'e tensor4) \<times> ('e, 's) world" where
  "noise_images T x t w =
     (case index_select (alpha_hat (self w)) t of
        Inl e \<Rightarrow> (Inl e, w)
      | Inr ah1 \<Rightarrow>
     (case index_select (alpha_hat (self w)) t of
        Inl e \<Rightarrow> (Inl e, w)
      | Inr ah2 \<Rightarrow>
         (let sqrt_alpha_hat = unsqueeze3 (map (t_sqrt T) ah1);
              sqrt_cum_sinus_alpha_hat =
                unsqueeze3 (map (\<lambda>a. t_sqrt T (t_sub T (t_scalar T 1) a)) ah2);
              (epsilon, g) = randn_like x (gen w)
          in (bindE (tmul T sqrt_alpha_hat x) (\<lambda>p1.
              bindE (tmul T p1 sqrt_cum_sinus_alpha_hat) (\<lambda>p2.
              bindE (tmul T p2 epsilon) (\<lambda>noisy. Inr (noisy, epsilon)))),
              w\<lparr>gen := g\<rparr>))))"

text \<open>
  The forward process as the specification writes it, for comparison: the sum
  \<open>sqrt(alphaHat[t]) * x + sqrt(1 - alphaHat[t]) * epsilon\<close> on every element.
\<close>

definition additive_form :: "real \<Rightarrow> real \<Rightarrow> real \<Rightarrow> real" where
  "additive_form ah xv ev = sqrt ah * xv + sqrt (1 - ah) * ev"

subsection \<open>\<^verbatim>\<open>sample_timesteps\<close>\<close>


subsection \<open>\<^verbatim>\<open>sample\<close>\<close>

text \<open>
  Line 59, the update of the state, from the three coefficients (tensors
  \<^verbatim>\<open>(n, 1, 1, 1)\<close>), the state, the predicted noise and the noise \<open>z\<close>.
\<close>

definition reverse_update ::
  "'e torch \<Rightarrow> 'e tensor4 \<Rightarrow> 'e tensor4 \<Rightarrow> 'e tensor4 \<Rightarrow> 'e tensor4 \<Rightarrow> 'e tensor4 \<Rightarrow>
     'e tensor4 \<Rightarrow> error + 'e tensor4" where
  "reverse_update T alpha_t alpha_hat_t beta_t x predicted_noise z =
     bindE (tdiv T (tmap (\<lambda>a. t_sub T (t_scalar T 1) a) alpha_t)
              (tmap (\<lambda>a. t_sqrt T (t_sub T (t_scalar T 1) a)) alpha_hat_t)) (\<lambda>coef.
     bindE (tmul T coef predicted_noise) (\<lambda>scaled.
     bindE (tsub T x scaled) (\<lambda>diff.
     bindE (tmul T (tmap (\<lambda>a. t_div T (t_scalar T 1) (t_sqrt T a)) alpha_t) diff) (\<lambda>mean.
     bindE (tmul T (tmap (t_sqrt T) beta_t) z) (\<lambda>noise.
     tadd T mean noise)))))"

text \<open>
  The body of the loop, lines 49 to 59, at counter \<open>i\<close> and state \<open>x\<close>. The noise
  \<open>z\<close> is created after the predictor has run and the schedule has been read, and it
  is created on the host, not moved to the device of the object: the update combines
  it with tensors on that device, which raises when the two differ.
\<close>

definition sample_step ::
  "'e torch \<Rightarrow> ('e, 's) forward \<Rightarrow> int \<Rightarrow> int \<Rightarrow> 'e tensor4 \<Rightarrow> ('e, 's) world \<Rightarrow>
     (error + 'e tensor4) \<times> ('e, 's) world" where
  "sample_step T model n i x w =
     (case timesteps T n i (device (self w)) of
        Inl e \<Rightarrow> (Inl e, w)
      | Inr t \<Rightarrow>
     (let (r, s) = model (training w) (net w) x t;
          w1 = w\<lparr>net := s\<rparr>
      in case r of
        Inl e \<Rightarrow> (Inl e, w1)
      | Inr predicted_noise \<Rightarrow>
     (case index_select (alpha (self w1)) t of
        Inl e \<Rightarrow> (Inl e, w1)
      | Inr a \<Rightarrow>
     (case index_select (alpha_hat (self w1)) t of
        Inl e \<Rightarrow> (Inl e, w1)
      | Inr ah \<Rightarrow>
     (case index_select (beta (self w1)) t of
        Inl e \<Rightarrow> (Inl e, w1)
      | Inr b \<Rightarrow>
     (let (rz, g) =
            (if i > 1 then randn T n 3 (img_size (self w1)) (img_size (self w1)) (gen w1)
             else (full4 T n 3 (img_size (self w1)) (img_size (self w1)) (t_scalar T 0),
                   gen w1));
          w2 = w1\<lparr>gen := g\<rparr>
      in case rz of
        Inl e \<Rightarrow> (Inl e, w2)
      | Inr z \<Rightarrow>
          if \<not> t_host T (device (self w2)) then (Inl RuntimeError, w2)
          else (reverse_update T (unsqueeze3 a) (unsqueeze3 ah) (unsqueeze3 b) x
                  predicted_noise z, w2)))))))"

text \<open>The loop over \<^verbatim>\<open>reversed(range(1, noise_steps))\<close>; an exception leaves it.\<close>

fun sample_loop ::
  "'e torch \<Rightarrow> ('e, 's) forward \<Rightarrow> int \<Rightarrow> int list \<Rightarrow> 'e tensor4 \<Rightarrow> ('e, 's) world \<Rightarrow>
     (error + 'e tensor4) \<times> ('e, 's) world" where
  "sample_loop T model n [] x w = (Inr x, w)"
| "sample_loop T model n (i # is) x w =
     (case sample_step T model n i x w of
        (Inl e, w1) \<Rightarrow> (Inl e, w1)
      | (Inr x1, w1) \<Rightarrow> sample_loop T model n is x1 w1)"

text \<open>
  Lines 63 and 64: \<^verbatim>\<open>clamp(-1, 1)\<close>, the shift to \<open>[0, 1]\<close>, the scaling by 255 and the
  conversion \<^verbatim>\<open>.type(torch.uint8)\<close>.
\<close>

definition postprocess :: "'e torch \<Rightarrow> 'e tensor4 \<Rightarrow> 8 word tensor4" where
  "postprocess T x =
     tmap (t_uint8 T) (tmap (\<lambda>v. t_mul T v (t_scalar T 255))
       (tmap (\<lambda>v. t_div T (t_add T (t_clamp T (- 1) 1 v) (t_scalar T 1)) (t_scalar T 2)) x))"

text \<open>
  \<^verbatim>\<open>sample(model, n)\<close>, lines 40 to 66: \<^verbatim>\<open>model.eval()\<close>, the initial noise and its move
  to the device, the loop, \<^verbatim>\<open>model.train()\<close> and the post-processing. An exception skips
  \<^verbatim>\<open>model.train()\<close>.
\<close>

definition sample ::
  "'e torch \<Rightarrow> ('e, 's) forward \<Rightarrow> int \<Rightarrow> ('e, 's) world \<Rightarrow>
     (error + 8 word tensor4) \<times> ('e, 's) world" where
  "sample T model n w =
     (let w0 = w\<lparr>training := False\<rparr>;
          (rx, g) = randn T n 3 (img_size (self w0)) (img_size (self w0)) (gen w0);
          w1 = w0\<lparr>gen := g\<rparr>
      in case rx of
        Inl e \<Rightarrow> (Inl e, w1)
      | Inr x0 \<Rightarrow>
          if \<not> t_available T (device (self w1)) then (Inl RuntimeError, w1)
          else
          (case sample_loop T model n (rev [1..noise_steps (self w1) - 1]) x0 w1 of
             (Inl e, w2) \<Rightarrow> (Inl e, w2)
           | (Inr x, w2) \<Rightarrow> (Inr (postprocess T x), w2\<lparr>training := True\<rparr>)))"

text \<open>
  The reverse step as the specification writes it, for comparison, on one element:
  \<open>a\<close>, \<open>ah\<close> and \<open>b\<close> are \<open>alpha[i]\<close>, \<open>alphaHat[i]\<close> and \<open>beta[i]\<close>, and \<open>xv\<close>,
  \<open>pv\<close> and \<open>zv\<close> the elements of the state, of the predicted noise and of \<open>z\<close>:
  \<open>1 / sqrt(a) * (xv - (1 - a) / sqrt(1 - ah) * pv) + sqrt(b) * zv\<close>, every operation in
  the arithmetic of the elements.
\<close>

definition reverse_formula :: "'e torch \<Rightarrow> 'e \<Rightarrow> 'e \<Rightarrow> 'e \<Rightarrow> 'e \<Rightarrow> 'e \<Rightarrow> 'e \<Rightarrow> 'e" where
  "reverse_formula T a ah b xv pv zv =
     t_add T
       (t_mul T (t_div T (t_scalar T 1) (t_sqrt T a))
          (t_sub T xv
             (t_mul T (t_div T (t_sub T (t_scalar T 1) a)
                         (t_sqrt T (t_sub T (t_scalar T 1) ah))) pv)))
       (t_mul T (t_sqrt T b) zv)"

definition tmap3 ::
  "('a \<Rightarrow> 'b \<Rightarrow> 'c \<Rightarrow> 'd) \<Rightarrow> 'a tensor4 \<Rightarrow> 'b tensor4 \<Rightarrow> 'c tensor4 \<Rightarrow> 'd tensor4" where
  "tmap3 f x y z = tmap2 (\<lambda>(a, b) c. f a b c) (tmap2 Pair x y) z"

subsection \<open>Exact arithmetic\<close>

text \<open>
  The instance \<open>exact\<close>: the elements are real numbers and nothing is rounded, so
  every number fits; \<^verbatim>\<open>clamp\<close> is the minimum of the maximum; the conversions to
  integers drop the fractional part (they round towards zero), \<^verbatim>\<open>uint8\<close> keeps the low
  eight bits. HOL's \<open>sqrt\<close> of a negative number and division by zero are not torch's
  (NaN and infinity): the instance is used where radicands are positive and divisors
  non-zero. Its machine has the device \<^verbatim>\<open>cpu\<close>, and room for tensors of up to \<open>2 ^ 28\<close>
  elements.
\<close>

definition clamp :: "real \<Rightarrow> real \<Rightarrow> real \<Rightarrow> real" where
  "clamp lo hi v = min (max v lo) hi"

definition to_uint8 :: "real \<Rightarrow> 8 word" where
  "to_uint8 v = word_of_int (if 0 \<le> v then \<lfloor>v\<rfloor> else \<lceil>v\<rceil>)"

definition to_long :: "real \<Rightarrow> int" where
  "to_long v = (if 0 \<le> v then \<lfloor>v\<rfloor> else \<lceil>v\<rceil>)"

definition exact :: "real torch" where
  "exact =
     \<lparr>t_scalar = (\<lambda>v. v), t_add = (+), t_sub = (-), t_mul = (*), t_div = (/),
      t_sqrt = sqrt, t_clamp = clamp, t_uint8 = to_uint8, t_long = to_long,
      t_fits = (\<lambda>v. True), t_alloc = (\<lambda>k. k \<le> 2 ^ 28),
      t_available = (\<lambda>dev. dev = ''cpu''), t_host = (\<lambda>dev. dev = ''cpu'')\<rparr>"

text \<open>The same on a machine that has a second device, \<^verbatim>\<open>cuda\<close>.\<close>

definition exact_cuda :: "real torch" where
  "exact_cuda = exact\<lparr>t_available := (\<lambda>dev. dev = ''cpu'' \<or> dev = ''cuda'')\<rparr>"

subsection \<open>32-bit floats\<close>

text \<open>
  The instance \<open>float32 U\<close>: the finite 32-bit floats are the real numbers they
  denote, \<open>Finite 0\<close> is the positive zero. An operation on finite values whose result
  is finite is the exact result rounded to nearest, ties to even, with 24 significant
  bits and the smallest exponent -126. Everything else (an infinity, a NaN or the
  negative zero among the arguments or as the result, a conversion out of range) is
  what the parameter \<open>U\<close> says, and so are the devices and the memory.
\<close>

datatype 'x f32 = Finite real | Special 'x

definition rne :: "real \<Rightarrow> int" where
  "rne y =
     (let f = \<lfloor>y\<rfloor>; d = y - real_of_int f
      in if d < 1/2 then f else if 1/2 < d then f + 1 else if even f then f else f + 1)"

definition f32_round :: "real \<Rightarrow> real" where
  "f32_round v =
     (if v = 0 then 0
      else (let e = max \<lfloor>log 2 \<bar>v\<bar>\<rfloor> (- 126); u = 2 powr real_of_int (e - 23)
            in real_of_int (rne (v / u)) * u))"

definition pack :: "real \<Rightarrow> bool \<Rightarrow> 'x f32 \<Rightarrow> 'x f32" where
  "pack r negative other =
     (let q = f32_round r
      in if 2 ^ 128 \<le> \<bar>q\<bar> \<or> (q = 0 \<and> negative) then other else Finite q)"

definition float32 :: "'x f32 torch \<Rightarrow> 'x f32 torch" where
  "float32 U =
     U\<lparr>t_scalar := (\<lambda>v. pack v (v < 0) (t_scalar U v)),
       t_add := (\<lambda>a b. case (a, b) of
           (Finite x, Finite y) \<Rightarrow> pack (x + y) False (t_add U a b)
         | _ \<Rightarrow> t_add U a b),
       t_sub := (\<lambda>a b. case (a, b) of
           (Finite x, Finite y) \<Rightarrow> pack (x - y) False (t_sub U a b)
         | _ \<Rightarrow> t_sub U a b),
       t_mul := (\<lambda>a b. case (a, b) of
           (Finite x, Finite y) \<Rightarrow> pack (x * y) ((x < 0) \<noteq> (y < 0)) (t_mul U a b)
         | _ \<Rightarrow> t_mul U a b),
       t_div := (\<lambda>a b. case (a, b) of
           (Finite x, Finite y) \<Rightarrow>
             if y = 0 then t_div U a b else pack (x / y) ((x < 0) \<noteq> (y < 0)) (t_div U a b)
         | _ \<Rightarrow> t_div U a b),
       t_sqrt := (\<lambda>a. case a of
           Finite x \<Rightarrow> if x < 0 then t_sqrt U a else pack (sqrt x) False (t_sqrt U a)
         | _ \<Rightarrow> t_sqrt U a),
       t_clamp := (\<lambda>lo hi a.
          case (pack lo (lo < 0) (t_scalar U lo), pack hi (hi < 0) (t_scalar U hi), a) of
           (Finite l, Finite h, Finite x) \<Rightarrow> Finite (min (max x l) h)
         | _ \<Rightarrow> t_clamp U lo hi a),
       t_uint8 := (\<lambda>a. case a of
           Finite x \<Rightarrow> if 0 \<le> to_long x \<and> to_long x \<le> 255 then word_of_int (to_long x)
                        else t_uint8 U a
         | _ \<Rightarrow> t_uint8 U a),
       t_long := (\<lambda>a. case a of
           Finite x \<Rightarrow> if - (2 ^ 63) \<le> to_long x \<and> to_long x < 2 ^ 63 then to_long x
                        else t_long U a
         | _ \<Rightarrow> t_long U a),
       t_fits := (\<lambda>v. \<bar>v\<bar> \<le> (2 - 1 / 2 ^ 23) * 2 ^ 127)\<rparr>"

text \<open>
  A parameter for the examples: the values outside the finite floats are not told
  apart, they are all \<open>Special ()\<close>; the machine is that of \<open>exact\<close>.
\<close>

definition coarse :: "unit f32 torch" where
  "coarse =
     \<lparr>t_scalar = (\<lambda>v. Special ()), t_add = (\<lambda>a b. Special ()), t_sub = (\<lambda>a b. Special ()),
      t_mul = (\<lambda>a b. Special ()), t_div = (\<lambda>a b. Special ()), t_sqrt = (\<lambda>a. Special ()),
      t_clamp = (\<lambda>lo hi a. Special ()), t_uint8 = (\<lambda>a. 0), t_long = (\<lambda>a. - (2 ^ 63)),
      t_fits = (\<lambda>v. True), t_alloc = (\<lambda>k. k \<le> 2 ^ 28),
      t_available = (\<lambda>dev. dev = ''cpu''), t_host = (\<lambda>dev. dev = ''cpu'')\<rparr>"


subsection \<open>A small instance\<close>

text \<open>
  \<^verbatim>\<open>Diffusion(noise_steps=2, beta_start=0.5, beta_end=0.75, img_size=1)\<close>, a generator
  whose normal draws all have the value \<open>v\<close>, the predictor that answers zero
  everywhere and the predictor that raises. They are the concrete inputs of the
  examples below.
\<close>

definition example_diffusion :: "real diffusion" where
  "example_diffusion =
     \<lparr>noise_steps = 2, beta_start = 1/2, beta_end = 3/4, img_size = 1, device = ''cpu'',
      beta = [1/2, 3/4], alpha = [1/2, 1/4], alpha_hat = [1/2, 1/8]\<rparr>"

definition example_world :: "real \<Rightarrow> bool \<Rightarrow> (real, unit) world" where
  "example_world v m =
     \<lparr>self = example_diffusion,
      gen = \<lparr>normals = (\<lambda>k. v), raws = (\<lambda>k. k), pos = 0\<rparr>,
      training = m, net = ()\<rparr>"

definition zero_predictor :: "(real, unit) forward" where
  "zero_predictor m s x t = (Inr (tmap (\<lambda>v. 0) x), s)"


text \<open>
  \<^verbatim>\<open>Diffusion(noise_steps=3, beta_start=0.25, beta_end=0.5, img_size=1)\<close>, and a world
  around it whose predictor records its invocations, with nothing recorded yet.
\<close>

definition example3 :: "real diffusion" where
  "example3 =
     \<lparr>noise_steps = 3, beta_start = 1/4, beta_end = 1/2, img_size = 1, device = ''cpu'',
      beta = [1/4, 3/8, 1/2], alpha = [3/4, 5/8, 1/2], alpha_hat = [3/4, 15/32, 15/64]\<rparr>"

definition recording_world ::
  "real diffusion \<Rightarrow> real \<Rightarrow> bool \<Rightarrow> (real, unit \<times> (bool \<times> real tensor4 \<times> int list) list) world" where
  "recording_world d v m =
     \<lparr>self = d, gen = \<lparr>normals = (\<lambda>k. v), raws = (\<lambda>k. k), pos = 0\<rparr>,
      training = m, net = ((), [])\<rparr>"



definition unvalidated :: "real diffusion" where
  "unvalidated =
     \<lparr>noise_steps = 1, beta_start = 2, beta_end = - 1, img_size = 64, device = ''cpu'',
      beta = [2], alpha = [- 1], alpha_hat = [- 1]\<rparr>"



section \<open>Errors, indexing and broadcasting\<close>

lemma bindE_Inr [simp]: "bindE (Inr v) k = k v"
  by (simp add: bindE_def)

lemma bindE_Inl [simp]: "bindE (Inl e) k = Inl e"
  by (simp add: bindE_def)

lemma mapE_Inr:
  "(\<And>x. x \<in> set xs \<Longrightarrow> f x = Inr (h x)) \<Longrightarrow> mapE f xs = Inr (map h xs)"
  by (induction xs) auto

lemma mapE_Inl:
  "mapE f xs = Inl e \<Longrightarrow> \<exists>x\<in>set xs. f x = Inl e"
  by (induction xs) (auto split: sum.splits)

lemma mapE_Inl_iff:
  "(\<exists>e. mapE f xs = Inl e) \<longleftrightarrow> (\<exists>x\<in>set xs. \<exists>e. f x = Inl e)"
  by (induction xs) (auto split: sum.splits)

lemma index1_Inl: "index1 xs i = Inl e \<longleftrightarrow> e = IndexError \<and> (i < - int (length xs) \<or> int (length xs) \<le> i)"
  by (auto simp: index1_def Let_def)

lemma index1_in_range:
  "0 \<le> i \<Longrightarrow> i < int (length xs) \<Longrightarrow> index1 xs i = Inr (xs ! nat i)"
  by (simp add: index1_def Let_def)

lemma index_select_Inl:
  "index_select xs t = Inl e \<longleftrightarrow>
     e = IndexError \<and> (\<exists>i\<in>set t. i < - int (length xs) \<or> int (length xs) \<le> i)"
proof
  assume "index_select xs t = Inl e"
  then obtain i where "i \<in> set t" "index1 xs i = Inl e"
    unfolding index_select_def by (blast dest: mapE_Inl)
  then show "e = IndexError \<and> (\<exists>i\<in>set t. i < - int (length xs) \<or> int (length xs) \<le> i)"
    by (auto simp: index1_Inl)
next
  assume r: "e = IndexError \<and> (\<exists>i\<in>set t. i < - int (length xs) \<or> int (length xs) \<le> i)"
  then have "\<exists>i\<in>set t. \<exists>e. index1 xs i = Inl e"
    by (auto simp: index1_Inl)
  then obtain e' where e': "index_select xs t = Inl e'"
    unfolding index_select_def using mapE_Inl_iff [of "index1 xs" t] by auto
  then obtain i where "i \<in> set t" "index1 xs i = Inl e'"
    unfolding index_select_def by (blast dest: mapE_Inl)
  then have "e' = IndexError" by (simp add: index1_Inl)
  with e' r show "index_select xs t = Inl e" by simp
qed

lemma index_select_replicate:
  "0 \<le> i \<Longrightarrow> i < int (length xs) \<Longrightarrow>
     index_select xs (replicate n i) = Inr (replicate n (xs ! nat i))"
  unfolding index_select_def
  by (subst mapE_Inr [where h = "\<lambda>_. xs ! nat i"]) (auto simp: index1_in_range map_replicate_const)

subsection \<open>Broadcasting\<close>

lemma broadcast_same_length:
  assumes "length xs = length ys"
    and "\<And>x y. x \<in> set xs \<Longrightarrow> y \<in> set ys \<Longrightarrow> f x y = Inr (h x y)"
  shows "broadcast f xs ys = Inr (map2 h xs ys)"
proof -
  have "mapE (\<lambda>(x, y). f x y) (zip xs ys) = Inr (map (\<lambda>(x, y). h x y) (zip xs ys))"
  proof (rule mapE_Inr)
    fix p assume "p \<in> set (zip xs ys)"
    then have "(fst p, snd p) \<in> set (zip xs ys)" by simp
    then have "fst p \<in> set xs" "snd p \<in> set ys"
      by (rule set_zip_leftD, rule set_zip_rightD)
    then show "(case p of (x, y) \<Rightarrow> f x y) = Inr (case p of (x, y) \<Rightarrow> h x y)"
      by (simp add: assms(2) split_def)
  qed
  with assms(1) show ?thesis by (simp add: broadcast_def)
qed

lemma broadcast_single_left:
  assumes "\<And>y. y \<in> set ys \<Longrightarrow> f a y = Inr (h y)"
  shows "broadcast f [a] ys = Inr (map h ys)"
proof (cases "length ys = 1")
  case True
  then obtain y where ys: "ys = [y]" by (cases ys) auto
  with assms show ?thesis by (simp add: broadcast_def)
next
  case False
  then show ?thesis using mapE_Inr [of ys "f a" h] assms by (simp add: broadcast_def)
qed

lemma broadcast_single_right:
  assumes "\<And>x. x \<in> set xs \<Longrightarrow> f x b = Inr (h x)"
  shows "broadcast f xs [b] = Inr (map h xs)"
proof (cases "length xs = 1")
  case True
  then obtain x where xs: "xs = [x]" by (cases xs) auto
  with assms show ?thesis by (simp add: broadcast_def)
next
  case False
  then show ?thesis using mapE_Inr [of xs "\<lambda>x. f x b" h] assms by (simp add: broadcast_def)
qed

lemma broadcast_error:
  assumes "\<And>x y e. f x y = Inl e \<Longrightarrow> e = RuntimeError"
  shows "broadcast f xs ys = Inl e \<Longrightarrow> e = RuntimeError"
  by (auto simp: broadcast_def split: if_splits dest!: mapE_Inl dest: assms)

lemma tensor_op_error: "tensor_op f x y = Inl e \<Longrightarrow> e = RuntimeError"
  unfolding tensor_op_def
  by (erule broadcast_error [rotated])
     (erule broadcast_error [rotated], erule broadcast_error [rotated],
      erule broadcast_error [rotated], simp)

lemma tensor_op_scale_left:
  assumes "length cs = length x"
  shows "tensor_op f (unsqueeze3 cs) x = Inr (map2 (\<lambda>c. map (map (map (f c)))) cs x)"
proof -
  have 1: "broadcast (\<lambda>a b. Inr (f a b)) [c] row = Inr (map (f c) row)" for c row
    by (rule broadcast_single_left) simp
  have 2: "broadcast (broadcast (\<lambda>a b. Inr (f a b))) [[c]] plane = Inr (map (map (f c)) plane)"
    for c plane
    by (rule broadcast_single_left) (rule 1)
  have 3: "broadcast (broadcast (broadcast (\<lambda>a b. Inr (f a b)))) [[[c]]] img
             = Inr (map (map (map (f c))) img)" for c img
    by (rule broadcast_single_left) (rule 2)
  have "broadcast (broadcast (broadcast (broadcast (\<lambda>a b. Inr (f a b))))) (unsqueeze3 cs) x
          = Inr (map2 (\<lambda>u. map (map (map (f (hd (hd (hd u))))))) (unsqueeze3 cs) x)"
    by (rule broadcast_same_length) (auto simp: unsqueeze3_def assms 3)
  then show ?thesis
    by (simp add: tensor_op_def unsqueeze3_def zip_map1 split_def)
qed

lemma tensor_op_scale_right:
  assumes "length x = length cs"
  shows "tensor_op f x (unsqueeze3 cs) = Inr (map2 (\<lambda>img c. map (map (map (\<lambda>v. f v c))) img) x cs)"
proof -
  have 1: "broadcast (\<lambda>a b. Inr (f a b)) row [c] = Inr (map (\<lambda>v. f v c) row)" for c row
    by (rule broadcast_single_right) simp
  have 2: "broadcast (broadcast (\<lambda>a b. Inr (f a b))) plane [[c]]
            = Inr (map (map (\<lambda>v. f v c)) plane)"
    for c plane
    by (rule broadcast_single_right) (rule 1)
  have 3: "broadcast (broadcast (broadcast (\<lambda>a b. Inr (f a b)))) img [[[c]]]
             = Inr (map (map (map (\<lambda>v. f v c))) img)" for c img
    by (rule broadcast_single_right) (rule 2)
  have "broadcast (broadcast (broadcast (broadcast (\<lambda>a b. Inr (f a b))))) x (unsqueeze3 cs)
          = Inr (map2 (\<lambda>img u. map (map (map (\<lambda>v. f v (hd (hd (hd u)))))) img) x (unsqueeze3 cs))"
    by (rule broadcast_same_length) (auto simp: unsqueeze3_def assms 3)
  then show ?thesis
    by (simp add: tensor_op_def unsqueeze3_def zip_map2 split_def)
qed

lemma has_shapeD:
  assumes "has_shape n c h w x"
  shows "length x = n"
    and "\<And>img. img \<in> set x \<Longrightarrow> length img = c"
    and "\<And>img plane. img \<in> set x \<Longrightarrow> plane \<in> set img \<Longrightarrow> length plane = h"
    and "\<And>img plane row. img \<in> set x \<Longrightarrow> plane \<in> set img \<Longrightarrow> row \<in> set plane \<Longrightarrow> length row = w"
  using assms by (auto simp: has_shape_def list_all_iff)

lemma tensor_op_same_shape:
  assumes x: "has_shape n c h w x" and y: "has_shape n c h w y"
  shows "tensor_op f x y = Inr (tmap2 f x y)"
proof -
  note dx = has_shapeD [OF x] and dy = has_shapeD [OF y]
  have 1: "broadcast (\<lambda>a b. Inr (f a b)) r1 r2 = Inr (map2 f r1 r2)"
    if "length r1 = length r2" for r1 r2
    using that by (rule broadcast_same_length) simp
  have 2: "broadcast (broadcast (\<lambda>a b. Inr (f a b))) p1 p2 = Inr (map2 (map2 f) p1 p2)"
    if "length p1 = length p2" "\<And>r. r \<in> set p1 \<Longrightarrow> length r = w" "\<And>r. r \<in> set p2 \<Longrightarrow> length r = w"
    for p1 p2
    using that(1) by (rule broadcast_same_length) (simp add: 1 that)
  have 3: "broadcast (broadcast (broadcast (\<lambda>a b. Inr (f a b)))) i1 i2
             = Inr (map2 (map2 (map2 f)) i1 i2)"
    if "i1 \<in> set x" "i2 \<in> set y" for i1 i2
  proof (rule broadcast_same_length)
    show "length i1 = length i2" using dx(2) dy(2) that by simp
    fix p1 p2 assume "p1 \<in> set i1" "p2 \<in> set i2"
    then show "broadcast (broadcast (\<lambda>a b. Inr (f a b))) p1 p2 = Inr (map2 (map2 f) p1 p2)"
      using dx(3,4) dy(3,4) that by (intro 2) auto
  qed
  have "broadcast (broadcast (broadcast (broadcast (\<lambda>a b. Inr (f a b))))) x y
          = Inr (map2 (map2 (map2 (map2 f))) x y)"
    by (rule broadcast_same_length) (simp_all add: dx(1) dy(1) 3)
  then show ?thesis by (simp add: tensor_op_def tmap2_def)
qed

section \<open>Shapes and random tensors\<close>

lemma has_shape_tmap: "has_shape n c h w x \<Longrightarrow> has_shape n c h w (tmap f x)"
  by (auto simp: has_shape_def tmap_def list_all_iff)

lemma has_shape_scale_left:
  "has_shape n c h w x \<Longrightarrow> length cs = n \<Longrightarrow>
     has_shape n c h w (map2 (\<lambda>c. map (map (map (F c)))) cs x)"
  by (auto simp: has_shape_def list_all_iff dest!: set_zip_rightD)

lemma has_shape_scale_right:
  "has_shape n c h w x \<Longrightarrow> length cs = n \<Longrightarrow>
     has_shape n c h w (map2 (\<lambda>img c. map (map (map (F c))) img) x cs)"
  by (auto simp: has_shape_def list_all_iff dest!: set_zip_leftD)

lemma has_shape_tmap2:
  assumes "has_shape n c h w x" and "has_shape n c h w y"
  shows "has_shape n c h w (tmap2 f x y)"
  using assms
  by (auto simp: has_shape_def tmap2_def list_all_iff elim!: in_set_zipE)

lemma full4_Inr:
  "0 \<le> n \<Longrightarrow> 0 \<le> c \<Longrightarrow> 0 \<le> h \<Longrightarrow> 0 \<le> w \<Longrightarrow> t_alloc T (nat (n * c * h * w)) \<Longrightarrow>
     \<exists>z. full4 T n c h w v = Inr z \<and> has_shape (nat n) (nat c) (nat h) (nat w) z"
  by (auto simp: full4_def has_shape_def list_all_iff)

lemma draw_each_length: "length (fst (draw_each f xs g)) = length xs"
  by (induction xs arbitrary: g) (auto simp: split_def Let_def)

lemma draw_each_all:
  "(\<And>x g. x \<in> set xs \<Longrightarrow> P (fst (f x g))) \<Longrightarrow> list_all P (fst (draw_each f xs g))"
  by (induction xs arbitrary: g) (auto simp: split_def Let_def)

lemma has_shape_randn_like:
  assumes "has_shape n c h w x"
  shows "has_shape n c h w (fst (randn_like x g))"
proof -
  note d = has_shapeD [OF assms]
  have "list_all (\<lambda>img. length img = c \<and>
       list_all (\<lambda>plane. length plane = h \<and> list_all (\<lambda>row. length row = w) plane) img)
       (fst (draw_each (draw_each (draw_each (draw_each randn1))) x g))"
  proof (rule draw_each_all, intro conjI)
    fix img g1 assume img: "img \<in> set x"
    show "length (fst (draw_each (draw_each (draw_each randn1)) img g1)) = c"
      using d(2) [OF img] by (simp add: draw_each_length)
    show "list_all (\<lambda>plane. length plane = h \<and> list_all (\<lambda>row. length row = w) plane)
            (fst (draw_each (draw_each (draw_each randn1)) img g1))"
    proof (rule draw_each_all, intro conjI)
      fix plane g2 assume plane: "plane \<in> set img"
      show "length (fst (draw_each (draw_each randn1) plane g2)) = h"
        using d(3) [OF img plane] by (simp add: draw_each_length)
      show "list_all (\<lambda>row. length row = w) (fst (draw_each (draw_each randn1) plane g2))"
      proof (rule draw_each_all)
        fix row g3 assume "row \<in> set plane"
        then show "length (fst (draw_each randn1 row g3)) = w"
          using d(4) [OF img plane] by (simp add: draw_each_length)
      qed
    qed
  qed
  then show ?thesis
    using d(1) by (simp add: has_shape_def randn_like_def draw_each_length)
qed

lemma randn_Inr:
  assumes "0 \<le> n" "0 \<le> c" "0 \<le> h" "0 \<le> w" "t_alloc T (nat (n * c * h * w))"
  shows "\<exists>z g1. randn T n c h w g = (Inr z, g1) \<and> has_shape (nat n) (nat c) (nat h) (nat w) z"
proof -
  from full4_Inr [OF assms, of "()"] obtain z0 where
    z0: "full4 T n c h w () = Inr z0" "has_shape (nat n) (nat c) (nat h) (nat w) z0"
    by blast
  have "randn T n c h w g = (Inr (fst (randn_like z0 g)), snd (randn_like z0 g))"
    by (simp add: randn_def z0(1) split_def Let_def)
  with has_shape_randn_like [OF z0(2)] show ?thesis by blast
qed

section \<open>Properties of the schedule\<close>

lemma length_cumprod_from: "length (cumprod_from T acc xs) = length xs"
  by (induction xs arbitrary: acc) auto

lemma length_cumprod: "length (cumprod T xs) = length xs"
  by (cases xs) (simp_all add: length_cumprod_from)





lemma linspace_Inl:
  "\<not> (t_fits T start \<and> t_fits T stop \<and> 0 \<le> steps \<and> t_alloc T (nat steps)) \<Longrightarrow>
     linspace T start stop steps = Inl RuntimeError"
  by (auto simp: linspace_def)

lemma linspace_Inr:
  "t_fits T start \<Longrightarrow> t_fits T stop \<Longrightarrow> 0 \<le> steps \<Longrightarrow> t_alloc T (nat steps) \<Longrightarrow>
     \<exists>b. linspace T start stop steps = Inr b \<and> length b = nat steps"
  by (auto simp: linspace_def Let_def)

lemma linspace_length: "linspace T start stop steps = Inr b \<Longrightarrow> length b = nat steps"
  by (auto simp: linspace_def Let_def split: if_splits)



lemma init_Inr_iff:
  "(\<exists>d. init T ns bs be sz dev = Inr d) \<longleftrightarrow> constructible T ns bs be dev"
proof (cases "t_fits T bs \<and> t_fits T be \<and> 0 \<le> ns \<and> t_alloc T (nat ns)")
  case True
  then obtain b where "linspace T bs be ns = Inr b"
    using linspace_Inr [of T bs be ns] by blast
  with True show ?thesis
    by (auto simp: init_def prepare_noise_schedule_def Let_def constructible_def)
next
  case False
  from linspace_Inl [OF this] False show ?thesis
    by (auto simp: init_def prepare_noise_schedule_def Let_def constructible_def)
qed

lemma init_Inl: "\<not> constructible T ns bs be dev \<Longrightarrow> init T ns bs be sz dev = Inl RuntimeError"
proof (cases "t_fits T bs \<and> t_fits T be \<and> 0 \<le> ns \<and> t_alloc T (nat ns)")
  case True
  then obtain b where "linspace T bs be ns = Inr b"
    using linspace_Inr [of T bs be ns] by blast
  moreover assume "\<not> constructible T ns bs be dev"
  ultimately show ?thesis using True
    by (auto simp: init_def prepare_noise_schedule_def Let_def constructible_def)
next
  case False
  from linspace_Inl [OF this] show ?thesis
    by (simp add: init_def prepare_noise_schedule_def Let_def)
qed

lemma init_Inr: "constructible T ns bs be dev \<Longrightarrow> \<exists>d. init T ns bs be sz dev = Inr d"
  by (simp add: init_Inr_iff)

lemma init_fields:
  assumes "init T ns bs be sz dev = Inr d"
  shows "0 \<le> ns" and "noise_steps d = ns" and "beta_start d = bs" and "beta_end d = be"
    and "img_size d = sz" and "device d = dev"
    and "linspace T bs be ns = Inr (beta d)"
    and "alpha d = map (\<lambda>v. t_sub T (t_scalar T 1) v) (beta d)"
    and "alpha_hat d = cumprod T (alpha d)"
    and "t_available T dev"
proof -
  obtain b where b: "linspace T bs be ns = Inr b"
    using assms by (cases "linspace T bs be ns")
      (auto simp: init_def prepare_noise_schedule_def Let_def)
  from b show "0 \<le> ns" by (auto simp: linspace_def split: if_splits)
  from assms b show "noise_steps d = ns" and "beta_start d = bs" and "beta_end d = be"
    and "img_size d = sz" and "device d = dev"
    and "linspace T bs be ns = Inr (beta d)"
    and "alpha d = map (\<lambda>v. t_sub T (t_scalar T 1) v) (beta d)"
    and "alpha_hat d = cumprod T (alpha d)"
    and "t_available T dev"
    by (auto simp: init_def prepare_noise_schedule_def Let_def split: if_splits)
qed

lemma init_lengths:
  assumes "init T ns bs be sz dev = Inr d"
  shows "length (beta d) = nat ns" and "length (alpha d) = nat ns"
    and "length (alpha_hat d) = nat ns"
proof -
  show "length (beta d) = nat ns"
    using init_fields(7) [OF assms] by (rule linspace_length)
  then show "length (alpha d) = nat ns"
    by (simp add: init_fields(8) [OF assms])
  then show "length (alpha_hat d) = nat ns"
    by (simp add: init_fields(9) [OF assms] length_cumprod)
qed




subsection \<open>In exact arithmetic\<close>

lemma exact_simps [simp]:
  "t_scalar exact v = v" "t_add exact = (+)" "t_sub exact = (-)" "t_mul exact = (*)"
  "t_div exact = (/)" "t_sqrt exact = sqrt" "t_clamp exact = clamp" "t_uint8 exact = to_uint8"
  "t_long exact = to_long" "t_fits exact v" "t_alloc exact k \<longleftrightarrow> k \<le> 2 ^ 28"
  "t_available exact dev \<longleftrightarrow> dev = ''cpu''" "t_host exact dev \<longleftrightarrow> dev = ''cpu''"
  by (simp_all add: exact_def)


lemma prod_list_take_Suc:
  "t < length xs \<Longrightarrow> prod_list (take (Suc t) xs) = (\<Prod>k\<le>t. (xs ! k :: real))"
proof (induction t)
  case 0
  then show ?case by (cases xs) auto
next
  case (Suc t)
  then show ?case by (simp add: take_Suc_conv_app_nth)
qed






section \<open>Elements of tensors\<close>

lemma has_shape_nth:
  assumes "has_shape n c h w x" and "a < n" and "b < c" and "k < h"
  shows "length (x ! a) = c" and "length (x ! a ! b) = h" and "length (x ! a ! b ! k) = w"
proof -
  note d = has_shapeD [OF assms(1)]
  have 1: "x ! a \<in> set x" using d(1) assms(2) by simp
  show 2: "length (x ! a) = c" using d(2) [OF 1] .
  have 3: "x ! a ! b \<in> set (x ! a)" using 2 assms(3) by simp
  show 4: "length (x ! a ! b) = h" using d(3) [OF 1 3] .
  have 5: "x ! a ! b ! k \<in> set (x ! a ! b)" using 4 assms(4) by simp
  show "length (x ! a ! b ! k) = w" using d(4) [OF 1 3 5] .
qed

lemma tmap2_nth:
  assumes x: "has_shape n c h w x" and y: "has_shape n c h w y"
    and i: "a < n" "b < c" "k < h" "l < w"
  shows "tmap2 f x y ! a ! b ! k ! l = f (x ! a ! b ! k ! l) (y ! a ! b ! k ! l)"
proof -
  note lx = has_shape_nth [OF x i(1,2,3)] and ly = has_shape_nth [OF y i(1,2,3)]
  have l0: "length x = n" "length y = n" using x y by (simp_all add: has_shape_def)
  show ?thesis
    using i l0 lx ly by (simp add: tmap2_def)
qed


lemma scale_left_nth:
  assumes x: "has_shape n c h w x" and cs: "length cs = n"
    and i: "a < n" "b < c" "k < h" "l < w"
  shows "map2 (\<lambda>c. map (map (map (F c)))) cs x ! a ! b ! k ! l = F (cs ! a) (x ! a ! b ! k ! l)"
proof -
  note lx = has_shape_nth [OF x i(1,2,3)]
  have l0: "length x = n" using x by (simp add: has_shape_def)
  show ?thesis using i l0 lx cs by simp
qed

lemma scale_right_nth:
  assumes x: "has_shape n c h w x" and cs: "length cs = n"
    and i: "a < n" "b < c" "k < h" "l < w"
  shows "map2 (\<lambda>img c. map (map (map (\<lambda>v. F v c))) img) x cs ! a ! b ! k ! l
           = F (x ! a ! b ! k ! l) (cs ! a)"
proof -
  note lx = has_shape_nth [OF x i(1,2,3)]
  have l0: "length x = n" using x by (simp add: has_shape_def)
  show ?thesis using i l0 lx cs by simp
qed

section \<open>The forward process and the timestep sampler\<close>

lemma mapE_length: "mapE f xs = Inr ys \<Longrightarrow> length ys = length xs"
  by (induction xs arbitrary: ys) (auto split: sum.splits)

lemma index_select_length: "index_select xs t = Inr ys \<Longrightarrow> length ys = length t"
  unfolding index_select_def by (rule mapE_length)

lemma index_select_Inr_range:
  assumes "index_select xs t = Inr ys"
  shows "\<forall>i\<in>set t. - int (length xs) \<le> i \<and> i < int (length xs)"
proof (rule ccontr)
  assume "\<not> ?thesis"
  then have "index_select xs t = Inl IndexError"
    by (subst index_select_Inl) (auto simp: not_le not_less)
  with assms show False by simp
qed

lemma mapE_nth: "mapE f xs = Inr ys \<Longrightarrow> a < length xs \<Longrightarrow> f (xs ! a) = Inr (ys ! a)"
proof (induction xs arbitrary: ys a)
  case Nil
  then show ?case by simp
next
  case (Cons x xs)
  then show ?case by (cases a) (auto split: sum.splits)
qed

lemma index_select_nth:
  assumes "index_select xs t = Inr ys" and "a < length t"
  shows "ys ! a = xs ! nat (if t ! a < 0 then t ! a + int (length xs) else t ! a)"
proof -
  from mapE_nth [OF assms(1) [unfolded index_select_def] assms(2)]
  show ?thesis by (auto simp: index1_def Let_def split: if_splits)
qed


lemma noise_images_index_error:
  "fst (noise_images T x t w) = Inl IndexError \<longleftrightarrow>
     (\<exists>i\<in>set t. i < - int (length (alpha_hat (self w))) \<or> int (length (alpha_hat (self w))) \<le> i)"
proof (cases "index_select (alpha_hat (self w)) t")
  case (Inl e)
  then have e: "e = IndexError"
    and ex: "\<exists>i\<in>set t. i < - int (length (alpha_hat (self w))) \<or> int (length (alpha_hat (self w))) \<le> i"
    using index_select_Inl [of "alpha_hat (self w)" t e] by simp_all
  have "fst (noise_images T x t w) = Inl IndexError"
    using Inl e by (simp add: noise_images_def)
  with ex show ?thesis by simp
next
  case (Inr ah)
  have "fst (noise_images T x t w) \<noteq> Inl IndexError"
    using Inr
    by (auto simp: noise_images_def split_def Let_def bindE_def tmul_def
        split: sum.splits dest: tensor_op_error)
  with index_select_Inr_range [OF Inr] show ?thesis by (auto simp: not_le not_less)
qed

lemma noise_images_Inr:
  assumes ok: "index_select (alpha_hat (self w)) t = Inr ah"
    and x: "has_shape (length t) c h wd x"
  shows "\<exists>noisy. fst (noise_images T x t w) = Inr (noisy, fst (randn_like x (gen w))) \<and>
     has_shape (length t) c h wd noisy \<and>
     (\<forall>a<length t. \<forall>b<c. \<forall>k<h. \<forall>l<wd.
        noisy ! a ! b ! k ! l =
          t_mul T (t_mul T (t_mul T (t_sqrt T (ah ! a)) (x ! a ! b ! k ! l))
                     (t_sqrt T (t_sub T (t_scalar T 1) (ah ! a))))
            (fst (randn_like x (gen w)) ! a ! b ! k ! l))"
proof -
  define eps where "eps = fst (randn_like x (gen w))"
  define p1 where "p1 = map2 (\<lambda>c. map (map (map (t_mul T c)))) (map (t_sqrt T) ah) x"
  define p2 where
    "p2 = map2 (\<lambda>img c. map (map (map (\<lambda>v. t_mul T v c))) img) p1
            (map (\<lambda>a. t_sqrt T (t_sub T (t_scalar T 1) a)) ah)"
  have len: "length ah = length t" using ok by (rule index_select_length)
  have lx: "length x = length t" using x by (simp add: has_shape_def)
  have 1: "tmul T (unsqueeze3 (map (t_sqrt T) ah)) x = Inr p1"
    unfolding tmul_def p1_def by (rule tensor_op_scale_left) (simp add: len lx)
  have s1: "has_shape (length t) c h wd p1"
    unfolding p1_def using x by (rule has_shape_scale_left) (simp add: len)
  have l1: "length p1 = length t" using s1 by (simp add: has_shape_def)
  have 2: "tmul T p1 (unsqueeze3 (map (\<lambda>a. t_sqrt T (t_sub T (t_scalar T 1) a)) ah)) = Inr p2"
    unfolding tmul_def p2_def by (rule tensor_op_scale_right) (simp add: len l1)
  have s2: "has_shape (length t) c h wd p2"
    unfolding p2_def using s1 by (rule has_shape_scale_right) (simp add: len)
  have se: "has_shape (length t) c h wd eps"
    unfolding eps_def using x by (rule has_shape_randn_like)
  have 3: "tmul T p2 eps = Inr (tmap2 (t_mul T) p2 eps)"
    unfolding tmul_def using s2 se by (rule tensor_op_same_shape)
  have r: "fst (noise_images T x t w) = Inr (tmap2 (t_mul T) p2 eps, eps)"
    using 1 2 3 by (simp add: noise_images_def ok case_prod_beta Let_def eps_def [symmetric])
  have sn: "has_shape (length t) c h wd (tmap2 (t_mul T) p2 eps)"
    using s2 se by (rule has_shape_tmap2)
  have v: "tmap2 (t_mul T) p2 eps ! a ! b ! k ! l =
          t_mul T (t_mul T (t_mul T (t_sqrt T (ah ! a)) (x ! a ! b ! k ! l))
                     (t_sqrt T (t_sub T (t_scalar T 1) (ah ! a))))
            (eps ! a ! b ! k ! l)"
    if i: "a < length t" "b < c" "k < h" "l < wd" for a b k l
  proof -
    have "tmap2 (t_mul T) p2 eps ! a ! b ! k ! l
        = t_mul T (p2 ! a ! b ! k ! l) (eps ! a ! b ! k ! l)"
      using s2 se i by (rule tmap2_nth)
    also have "p2 ! a ! b ! k ! l
        = t_mul T (p1 ! a ! b ! k ! l) (map (\<lambda>a. t_sqrt T (t_sub T (t_scalar T 1) a)) ah ! a)"
      unfolding p2_def using s1 _ i by (rule scale_right_nth) (simp add: len)
    also have "p1 ! a ! b ! k ! l = t_mul T (map (t_sqrt T) ah ! a) (x ! a ! b ! k ! l)"
      unfolding p1_def using x _ i by (rule scale_left_nth) (simp add: len)
    finally show ?thesis using i(1) len by simp
  qed
  from r sn v show ?thesis unfolding eps_def by blast
qed


lemma init_example: "init exact 2 (1/2) (3/4) 1 ''cpu'' = Inr example_diffusion"
  by (simp add: init_def prepare_noise_schedule_def linspace_def Let_def
      example_diffusion_def upt_rec)

section \<open>The reverse step\<close>

lemma tmap_unsqueeze3: "tmap f (unsqueeze3 v) = unsqueeze3 (map f v)"
  by (simp add: tmap_def unsqueeze3_def)

lemma tensor_op_coefficients:
  "tensor_op f (unsqueeze3 (replicate n a)) (unsqueeze3 (replicate n b))
     = Inr (unsqueeze3 (replicate n (f a b)))"
proof -
  have "tensor_op f (unsqueeze3 (replicate n a)) (unsqueeze3 (replicate n b))
     = Inr (map2 (\<lambda>c. map (map (map (f c)))) (replicate n a) (unsqueeze3 (replicate n b)))"
    by (rule tensor_op_scale_left) (simp add: unsqueeze3_def)
  also have "map2 (\<lambda>c. map (map (map (f c)))) (replicate n a) (unsqueeze3 (replicate n b))
     = unsqueeze3 (replicate n (f a b))"
    by (simp add: unsqueeze3_def zip_replicate1 map_replicate_const)
  finally show ?thesis .
qed

lemma tensor_op_coefficient_left:
  assumes "length x = n"
  shows "tensor_op f (unsqueeze3 (replicate n a)) x = Inr (tmap (f a) x)"
proof -
  have "tensor_op f (unsqueeze3 (replicate n a)) x
     = Inr (map2 (\<lambda>c. map (map (map (f c)))) (replicate n a) x)"
    by (rule tensor_op_scale_left) (simp add: assms)
  also have "map2 (\<lambda>c. map (map (map (f c)))) (replicate n a) x = tmap (f a) x"
    using assms by (simp add: zip_replicate1 tmap_def)
  finally show ?thesis .
qed

lemma map2_map_left: "map2 f (map g xs) ys = map2 (\<lambda>a b. f (g a) b) xs ys"
  by (simp add: zip_map1 split_def)

lemma map2_map_right: "map2 f xs (map g ys) = map2 (\<lambda>a b. f a (g b)) xs ys"
  by (simp add: zip_map2 split_def)

lemma map_map2: "map g (map2 f xs ys) = map2 (\<lambda>a b. g (f a b)) xs ys"
  by (simp add: split_def)

lemma tmap2_tmap_right: "tmap2 f x (tmap g y) = tmap2 (\<lambda>a b. f a (g b)) x y"
  by (simp only: tmap2_def tmap_def map2_map_right)

lemma tmap_tmap2: "tmap g (tmap2 f x y) = tmap2 (\<lambda>a b. g (f a b)) x y"
  by (simp only: tmap2_def tmap_def map_map2)

lemma tmap2_tmap_left: "tmap2 f (tmap g x) y = tmap2 (\<lambda>a b. f (g a) b) x y"
  by (simp only: tmap2_def tmap_def map2_map_left)

lemma tmap2_as_tmap: "tmap2 g x y = tmap (\<lambda>(a, b). g a b) (tmap2 Pair x y)"
  by (simp only: tmap_tmap2 case_prod_conv)

lemma tmap2_tmap2_left:
  "tmap2 f (tmap2 g x y) z = tmap3 (\<lambda>a b c. f (g a b) c) x y z"
proof -
  have "(\<lambda>u c. f (case u of (a, b) \<Rightarrow> g a b) c) = (\<lambda>(a, b) c. f (g a b) c)"
    by (simp add: fun_eq_iff)
  then show ?thesis
    by (simp only: tmap3_def tmap2_as_tmap [of g] tmap2_tmap_left)
qed

lemma has_shape_tmap3:
  assumes "has_shape n c h w x" and "has_shape n c h w y" and "has_shape n c h w z"
  shows "has_shape n c h w (tmap3 f x y z)"
  unfolding tmap3_def using assms by (intro has_shape_tmap2)

lemma reverse_update_value:
  assumes x: "has_shape n c h w x" and p: "has_shape n c h w p" and z: "has_shape n c h w z"
  shows "reverse_update T (unsqueeze3 (replicate n a)) (unsqueeze3 (replicate n ah))
           (unsqueeze3 (replicate n b)) x p z
         = Inr (tmap3 (reverse_formula T a ah b) x p z)"
proof -
  define k where "k = t_div T (t_sub T (t_scalar T 1) a) (t_sqrt T (t_sub T (t_scalar T 1) ah))"
  define r where "r = t_div T (t_scalar T 1) (t_sqrt T a)"
  define scaled where "scaled = tmap (t_mul T k) p"
  define diff where "diff = tmap2 (t_sub T) x scaled"
  define mean where "mean = tmap (t_mul T r) diff"
  define noise where "noise = tmap (t_mul T (t_sqrt T b)) z"
  have lp: "length p = n" and lz: "length z = n" and lx: "length x = n"
    using x p z by (simp_all add: has_shape_def)
  have 1: "tdiv T (tmap (\<lambda>a. t_sub T (t_scalar T 1) a) (unsqueeze3 (replicate n a)))
             (tmap (\<lambda>a. t_sqrt T (t_sub T (t_scalar T 1) a)) (unsqueeze3 (replicate n ah)))
           = Inr (unsqueeze3 (replicate n k))"
    by (simp add: tmap_unsqueeze3 tdiv_def tensor_op_coefficients k_def)
  have 2: "tmul T (unsqueeze3 (replicate n k)) p = Inr scaled"
    unfolding tmul_def scaled_def using lp by (rule tensor_op_coefficient_left)
  have s2: "has_shape n c h w scaled"
    unfolding scaled_def using p by (rule has_shape_tmap)
  have 3: "tsub T x scaled = Inr diff"
    unfolding tsub_def diff_def using x s2 by (rule tensor_op_same_shape)
  have s3: "has_shape n c h w diff"
    unfolding diff_def using x s2 by (rule has_shape_tmap2)
  have 4: "tmul T (tmap (\<lambda>a. t_div T (t_scalar T 1) (t_sqrt T a)) (unsqueeze3 (replicate n a)))
             diff = Inr mean"
    unfolding tmul_def mean_def tmap_unsqueeze3 map_replicate r_def
    using s3 by (intro tensor_op_coefficient_left) (simp add: has_shape_def)
  have s4: "has_shape n c h w mean"
    unfolding mean_def using s3 by (rule has_shape_tmap)
  have 5: "tmul T (tmap (t_sqrt T) (unsqueeze3 (replicate n b))) z = Inr noise"
    unfolding tmul_def noise_def tmap_unsqueeze3 map_replicate
    using lz by (rule tensor_op_coefficient_left)
  have s5: "has_shape n c h w noise"
    unfolding noise_def using z by (rule has_shape_tmap)
  have 6: "tadd T mean noise = Inr (tmap2 (t_add T) mean noise)"
    unfolding tadd_def using s4 s5 by (rule tensor_op_same_shape)
  have rf: "reverse_formula T a ah b
      = (\<lambda>xv pv zv. t_add T (t_mul T r (t_sub T xv (t_mul T k pv))) (t_mul T (t_sqrt T b) zv))"
    by (simp add: fun_eq_iff reverse_formula_def r_def k_def)
  have "tmap2 (t_add T) mean noise = tmap3 (reverse_formula T a ah b) x p z"
    unfolding mean_def noise_def diff_def scaled_def
    by (simp only: tmap2_tmap_right tmap_tmap2 tmap2_tmap2_left rf)
  with 1 2 3 4 5 6 show ?thesis
    by (simp add: reverse_update_def)
qed

section \<open>The sampling loop\<close>

lemma timesteps_Inr:
  "0 \<le> n \<Longrightarrow> t_alloc T (nat n) \<Longrightarrow> int64 i \<Longrightarrow> t_available T dev \<Longrightarrow>
     timesteps T n i dev = Inr (replicate (nat n) (counter T i))"
  by (simp add: timesteps_def)

lemma timesteps_cases:
  "timesteps T n i dev = Inl RuntimeError \<or>
   timesteps T n i dev = Inr (replicate (nat n) (counter T i))"
  by (simp add: timesteps_def)

lemma full4_shape:
  "full4 T n c h w v = Inr z \<Longrightarrow> has_shape (nat n) (nat c) (nat h) (nat w) z"
  by (auto simp: full4_def has_shape_def list_all_iff split: if_splits)

lemma randn_shape:
  assumes "randn T n c h w g = (Inr z, g1)"
  shows "has_shape (nat n) (nat c) (nat h) (nat w) z"
proof (cases "full4 T n c h w ()")
  case (Inl e)
  with assms show ?thesis by (simp add: randn_def)
next
  case (Inr z0)
  with assms have "z = fst (randn_like z0 g)"
    by (auto simp: randn_def split_def Let_def)
  with has_shape_randn_like [OF full4_shape [OF Inr]] show ?thesis by simp
qed

lemma sample_step_frame:
  fixes w :: "('e, 's) world"
  assumes "sample_step T model n i x w = (r, w1)"
  shows "self w1 = self w" and "training w1 = training w"
  using assms
  by (auto simp: sample_step_def Let_def split_def split: sum.splits if_splits)

lemma sample_step_Inr:
  fixes w :: "('e, 's) world"
  assumes len: "length (alpha (self w)) = N" "length (alpha_hat (self w)) = N"
      "length (beta (self w)) = N"
    and i: "1 \<le> i" "i < int N" and c: "counter T i = i"
    and t: "timesteps T n i (device (self w)) = Inr (replicate (nat n) (counter T i))"
    and host: "t_host T (device (self w))"
    and x: "has_shape (nat n) 3 (nat (img_size (self w))) (nat (img_size (self w))) x"
    and m: "model (training w) (net w) x (replicate (nat n) i) = (Inr p, s)"
    and p: "has_shape (nat n) 3 (nat (img_size (self w))) (nat (img_size (self w))) p"
    and z: "(if 1 < i then randn T n 3 (img_size (self w)) (img_size (self w)) (gen w)
             else (full4 T n 3 (img_size (self w)) (img_size (self w)) (t_scalar T 0), gen w))
            = (Inr z, g)"
  shows "sample_step T model n i x w =
     (Inr (tmap3 (reverse_formula T (alpha (self w) ! nat i) (alpha_hat (self w) ! nat i)
                   (beta (self w) ! nat i)) x p z),
      w\<lparr>net := s, gen := g\<rparr>)"
    and "has_shape (nat n) 3 (nat (img_size (self w))) (nat (img_size (self w))) z"
proof -
  let ?sz = "img_size (self w)"
  let ?t = "replicate (nat n) i"
  have i0: "0 \<le> i" using i(1) by simp
  have t': "timesteps T n i (device (self w)) = Inr ?t" using t c by simp
  show hz: "has_shape (nat n) 3 (nat ?sz) (nat ?sz) z"
  proof (cases "1 < i")
    case True
    with z have "randn T n 3 ?sz ?sz (gen w) = (Inr z, g)" by simp
    from randn_shape [OF this] show ?thesis by simp
  next
    case False
    with z have "full4 T n 3 ?sz ?sz (t_scalar T 0) = Inr z" by simp
    from full4_shape [OF this] show ?thesis by simp
  qed
  have a: "index_select (alpha (self w)) ?t = Inr (replicate (nat n) (alpha (self w) ! nat i))"
    using i0 i(2) len(1) by (intro index_select_replicate) simp_all
  have ah: "index_select (alpha_hat (self w)) ?t
      = Inr (replicate (nat n) (alpha_hat (self w) ! nat i))"
    using i0 i(2) len(2) by (intro index_select_replicate) simp_all
  have b: "index_select (beta (self w)) ?t = Inr (replicate (nat n) (beta (self w) ! nat i))"
    using i0 i(2) len(3) by (intro index_select_replicate) simp_all
  note u = reverse_update_value [OF x p hz]
  show "sample_step T model n i x w =
     (Inr (tmap3 (reverse_formula T (alpha (self w) ! nat i) (alpha_hat (self w) ! nat i)
                   (beta (self w) ! nat i)) x p z),
      w\<lparr>net := s, gen := g\<rparr>)"
  proof (cases "1 < i")
    case True
    with z have "randn T n 3 ?sz ?sz (gen w) = (Inr z, g)" by simp
    then show ?thesis
      using True host by (simp add: sample_step_def t' m a ah b u)
  next
    case False
    with z have "full4 T n 3 ?sz ?sz (t_scalar T 0) = Inr z" "g = gen w" by simp_all
    then show ?thesis
      using False host by (simp add: sample_step_def t' m a ah b u)
  qed
qed

lemma sample_step_noise:
  assumes "0 \<le> n" and "0 \<le> sz" and "t_alloc T (nat (n * 3 * sz * sz))"
  shows "\<exists>z g1. (if 1 < i then randn T n 3 sz sz g
                  else (full4 T n 3 sz sz (t_scalar T 0), g)) = (Inr z, g1)"
proof (cases "1 < i")
  case True
  from randn_Inr [OF assms(1) _ assms(2) assms(2) assms(3), of g] True show ?thesis by auto
next
  case False
  from full4_Inr [OF assms(1) _ assms(2) assms(2) assms(3), of "t_scalar T 0"] False
  show ?thesis by auto
qed

subsection \<open>The recording predictor\<close>

lemma sample_step_spy:
  fixes w :: "('e, 's \<times> (bool \<times> 'e tensor4 \<times> int list) list) world"
  assumes "sample_step T (spy model) n i x w = (r, w1)"
  shows "snd (net w1) = snd (net w) @ [(training w, x, replicate (nat n) (counter T i))] \<or>
         (snd (net w1) = snd (net w) \<and> isl r)"
    and "\<not> isl r \<Longrightarrow>
         snd (net w1) = snd (net w) @ [(training w, x, replicate (nat n) (counter T i))]"
proof -
  show c: "snd (net w1) = snd (net w) @ [(training w, x, replicate (nat n) (counter T i))] \<or>
         (snd (net w1) = snd (net w) \<and> isl r)"
    using assms timesteps_cases [of T n i "device (self w)"]
    by (auto simp: sample_step_def spy_def Let_def split_def split: sum.splits if_splits)
  show "snd (net w1) = snd (net w) @ [(training w, x, replicate (nat n) (counter T i))]"
    if "\<not> isl r"
    using c that by blast
qed

lemma sample_loop_spy:
  fixes w :: "('e, 's \<times> (bool \<times> 'e tensor4 \<times> int list) list) world"
  assumes "sample_loop T (spy model) n js x w = (r, w1)"
  shows "self w1 = self w \<and> training w1 = training w \<and>
     (\<exists>new. snd (net w1) = snd (net w) @ new \<and>
        map (\<lambda>e. snd (snd e)) new
          = map (\<lambda>j. replicate (nat n) (counter T j)) (take (length new) js) \<and>
        (\<forall>e\<in>set new. fst e = training w) \<and>
        length new \<le> length js \<and> (\<not> isl r \<longrightarrow> length new = length js))"
  using assms
proof (induction js arbitrary: x w)
  case Nil
  then show ?case by auto
next
  case (Cons j js)
  obtain r0 w0 where st: "sample_step T (spy model) n j x w = (r0, w0)"
    by (cases "sample_step T (spy model) n j x w")
  note f = sample_step_frame [OF st] and sp = sample_step_spy [OF st]
  let ?e = "(training w, x, replicate (nat n) (counter T j))"
  show ?case
  proof (cases r0)
    case (Inl e)
    with Cons.prems st have eq: "r = Inl e" "w1 = w0" by simp_all
    from sp(1) show ?thesis
    proof
      assume "snd (net w0) = snd (net w) @ [?e]"
      then show ?thesis using f eq by (intro conjI exI [of _ "[?e]"]) simp_all
    next
      assume "snd (net w0) = snd (net w) \<and> isl r0"
      then show ?thesis using f eq by (intro conjI exI [of _ "[]"]) simp_all
    qed
  next
    case (Inr x1)
    with Cons.prems st have rest: "sample_loop T (spy model) n js x1 w0 = (r, w1)" by simp
    from sp(2) Inr have c0: "snd (net w0) = snd (net w) @ [?e]" by simp
    from Cons.IH [OF rest] obtain new where
      ih: "self w1 = self w0" "training w1 = training w0" "snd (net w1) = snd (net w0) @ new"
        "map (\<lambda>e. snd (snd e)) new
          = map (\<lambda>j. replicate (nat n) (counter T j)) (take (length new) js)"
        "\<forall>e\<in>set new. fst e = training w0"
        "length new \<le> length js" "\<not> isl r \<longrightarrow> length new = length js"
      by blast
    show ?thesis
      using ih f c0
      by (intro conjI exI [of _ "?e # new"]) simp_all
  qed
qed

lemma sample_loop_frame:
  fixes w :: "('e, 's) world"
  assumes "sample_loop T model n js x w = (r, w1)"
  shows "self w1 = self w \<and> training w1 = training w"
  using assms
proof (induction js arbitrary: x w)
  case Nil
  then show ?case by auto
next
  case (Cons j js)
  obtain r0 w0 where st: "sample_step T model n j x w = (r0, w0)"
    by (cases "sample_step T model n j x w")
  note f = sample_step_frame [OF st]
  show ?case
  proof (cases r0)
    case (Inl e)
    with Cons.prems st f show ?thesis by simp
  next
    case (Inr x1)
    with Cons.prems st have "sample_loop T model n js x1 w0 = (r, w1)" by simp
    from Cons.IH [OF this] f show ?thesis by simp
  qed
qed

lemma sample_loop_Inr:
  fixes w :: "('e, 's) world"
  assumes len: "length (alpha (self w)) = N" "length (alpha_hat (self w)) = N"
      "length (beta (self w)) = N"
    and js: "\<forall>j\<in>set js. 1 \<le> j \<and> j < int N \<and> int64 j \<and> counter T j = j"
    and n: "0 \<le> n" and sz: "0 \<le> img_size (self w)"
    and al: "t_alloc T (nat n)" "t_alloc T (nat (n * 3 * img_size (self w) * img_size (self w)))"
    and dev: "t_available T (device (self w))" "t_host T (device (self w))"
    and m: "\<And>mode s x t. has_shape (nat n) 3 (nat (img_size (self w))) (nat (img_size (self w))) x \<Longrightarrow>
        \<exists>p s1. model mode s x t = (Inr p, s1) \<and>
          has_shape (nat n) 3 (nat (img_size (self w))) (nat (img_size (self w))) p"
    and x: "has_shape (nat n) 3 (nat (img_size (self w))) (nat (img_size (self w))) x"
  shows "\<exists>x1 w1. sample_loop T model n js x w = (Inr x1, w1) \<and>
     has_shape (nat n) 3 (nat (img_size (self w))) (nat (img_size (self w))) x1"
  using js x len sz al dev m
proof (induction js arbitrary: x w)
  case Nil
  then show ?case by simp
next
  case (Cons j js)
  let ?sz = "img_size (self w)"
  note hx = Cons.prems(2) and hlen = Cons.prems(3,4,5) and hsz = Cons.prems(6)
    and hal = Cons.prems(7,8) and hdev = Cons.prems(9,10) and hm = Cons.prems(11)
  from hm [OF hx] obtain p s1 where
    p: "model (training w) (net w) x (replicate (nat n) j) = (Inr p, s1)"
      "has_shape (nat n) 3 (nat ?sz) (nat ?sz) p"
    by blast
  from sample_step_noise [OF n hsz hal(2)] obtain z g1 where
    z: "(if 1 < j then randn T n 3 ?sz ?sz (gen w)
         else (full4 T n 3 ?sz ?sz (t_scalar T 0), gen w)) = (Inr z, g1)"
    by blast
  have j: "1 \<le> j" "j < int N" "int64 j" "counter T j = j" using Cons.prems(1) by simp_all
  have ts: "timesteps T n j (device (self w)) = Inr (replicate (nat n) (counter T j))"
    using n hal(1) j(3) hdev(1) by (rule timesteps_Inr)
  define x1 where "x1 = tmap3 (reverse_formula T (alpha (self w) ! nat j)
      (alpha_hat (self w) ! nat j) (beta (self w) ! nat j)) x p z"
  define w1 where "w1 = w\<lparr>net := s1, gen := g1\<rparr>"
  note st = sample_step_Inr [where w = w and model = model and N = N and i = j and n = n
      and x = x and p = p and s = s1 and z = z and g = g1 and T = T,
      OF hlen j(1,2,4) ts hdev(2) hx p z]
  have st1: "sample_step T model n j x w = (Inr x1, w1)"
    using st(1) by (simp add: x1_def w1_def)
  have hx1: "has_shape (nat n) 3 (nat ?sz) (nat ?sz) x1"
    unfolding x1_def using hx p(2) st(2) by (rule has_shape_tmap3)
  have self1: "self w1 = self w" by (simp add: w1_def)
  have "\<exists>x2 w2. sample_loop T model n js x1 w1 = (Inr x2, w2) \<and>
     has_shape (nat n) 3 (nat (img_size (self w1))) (nat (img_size (self w1))) x2"
  proof (rule Cons.IH)
    show "\<forall>j\<in>set js. 1 \<le> j \<and> j < int N \<and> int64 j \<and> counter T j = j"
      using Cons.prems(1) by simp
    show "has_shape (nat n) 3 (nat (img_size (self w1))) (nat (img_size (self w1))) x1"
      using hx1 by (simp add: self1)
    show "length (alpha (self w1)) = N" "length (alpha_hat (self w1)) = N"
      "length (beta (self w1)) = N" "0 \<le> img_size (self w1)"
      "t_alloc T (nat n)" "t_alloc T (nat (n * 3 * img_size (self w1) * img_size (self w1)))"
      "t_available T (device (self w1))" "t_host T (device (self w1))"
      using hlen hsz hal hdev by (simp_all add: self1)
    show "\<exists>p s1. model mode s x t = (Inr p, s1) \<and>
          has_shape (nat n) 3 (nat (img_size (self w1))) (nat (img_size (self w1))) p"
      if "has_shape (nat n) 3 (nat (img_size (self w1))) (nat (img_size (self w1))) x"
      for mode s x t
      using hm [of x mode s t] that by (simp add: self1)
  qed
  then show ?case
    using st1 by (simp add: self1)
qed

section \<open>The method \<^verbatim>\<open>sample\<close>\<close>

lemma sample_unfold:
  fixes w :: "('e, 's) world"
  defines "sz \<equiv> img_size (self w)" and "js \<equiv> rev [1..noise_steps (self w) - 1]"
  shows "(\<exists>e g. randn T n 3 sz sz (gen w) = (Inl e, g) \<and>
            sample T model n w = (Inl e, w\<lparr>training := False, gen := g\<rparr>)) \<or>
         (\<exists>x0 g. randn T n 3 sz sz (gen w) = (Inr x0, g) \<and> \<not> t_available T (device (self w)) \<and>
            sample T model n w = (Inl RuntimeError, w\<lparr>training := False, gen := g\<rparr>)) \<or>
         (\<exists>x0 g e w2. randn T n 3 sz sz (gen w) = (Inr x0, g) \<and>
            sample_loop T model n js x0 (w\<lparr>training := False, gen := g\<rparr>) = (Inl e, w2) \<and>
            sample T model n w = (Inl e, w2)) \<or>
         (\<exists>x0 g x w2. randn T n 3 sz sz (gen w) = (Inr x0, g) \<and>
            sample_loop T model n js x0 (w\<lparr>training := False, gen := g\<rparr>) = (Inr x, w2) \<and>
            sample T model n w = (Inr (postprocess T x), w2\<lparr>training := True\<rparr>))"
proof -
  obtain rx g where r: "randn T n 3 sz sz (gen w) = (rx, g)"
    by (cases "randn T n 3 sz sz (gen w)")
  show ?thesis
  proof (cases rx)
    case (Inl e)
    with r have "sample T model n w = (Inl e, w\<lparr>training := False, gen := g\<rparr>)"
      by (simp add: sample_def sz_def)
    with r Inl show ?thesis by blast
  next
    case (Inr x0)
    show ?thesis
    proof (cases "t_available T (device (self w))")
      case False
      with r Inr have "sample T model n w = (Inl RuntimeError, w\<lparr>training := False, gen := g\<rparr>)"
        by (simp add: sample_def sz_def)
      with r Inr False show ?thesis by blast
    next
      case True
      obtain r2 w2 where l: "sample_loop T model n js x0 (w\<lparr>training := False, gen := g\<rparr>) = (r2, w2)"
        by (cases "sample_loop T model n js x0 (w\<lparr>training := False, gen := g\<rparr>)")
      show ?thesis
      proof (cases r2)
        case (Inl e)
        with r Inr l True have "sample T model n w = (Inl e, w2)"
          by (simp add: sample_def sz_def js_def)
        with r Inr l Inl show ?thesis by blast
      next
        case x: (Inr x)
        with r Inr l True have "sample T model n w = (Inr (postprocess T x), w2\<lparr>training := True\<rparr>)"
          by (simp add: sample_def sz_def js_def)
        with r Inr l x show ?thesis by blast
      qed
    qed
  qed
qed

lemma sample_frame_aux:
  fixes w :: "('e, 's) world"
  assumes "sample T model n w = (r, w1)"
  shows "self w1 = self w" and "training w1 \<longleftrightarrow> \<not> isl r"
proof -
  have "self w1 = self w \<and> (training w1 \<longleftrightarrow> \<not> isl r)"
    using sample_unfold [of T n w model]
  proof (elim disjE exE conjE)
    fix e g
    assume "sample T model n w = (Inl e, w\<lparr>training := False, gen := g\<rparr>)"
    with assms show ?thesis by auto
  next
    fix x0 g
    assume "sample T model n w = (Inl RuntimeError, w\<lparr>training := False, gen := g\<rparr>)"
    with assms show ?thesis by auto
  next
    fix x0 g e w2
    assume l: "sample_loop T model n (rev [1..noise_steps (self w) - 1]) x0
        (w\<lparr>training := False, gen := g\<rparr>) = (Inl e, w2)"
      and s: "sample T model n w = (Inl e, w2)"
    from sample_loop_frame [OF l] s assms show ?thesis by auto
  next
    fix x0 g x w2
    assume l: "sample_loop T model n (rev [1..noise_steps (self w) - 1]) x0
        (w\<lparr>training := False, gen := g\<rparr>) = (Inr x, w2)"
      and s: "sample T model n w = (Inr (postprocess T x), w2\<lparr>training := True\<rparr>)"
    from sample_loop_frame [OF l] s assms show ?thesis by auto
  qed
  then show "self w1 = self w" and "training w1 \<longleftrightarrow> \<not> isl r" by simp_all
qed

lemma rev_upto_nth:
  assumes "k < nat (N - 1)"
  shows "rev [1..N - 1] ! k = N - 1 - int k"
proof -
  have len: "length [1..N - 1] = nat (N - 1)" by simp
  have "rev [1..N - 1] ! k = [1..N - 1] ! (nat (N - 1) - Suc k)"
    using assms by (simp add: rev_nth)
  also have "\<dots> = 1 + int (nat (N - 1) - Suc k)"
    using assms by (intro nth_upto) linarith
  also have "\<dots> = N - 1 - int k" using assms by linarith
  finally show ?thesis .
qed

lemma sample_spy:
  fixes w :: "('e, 's \<times> (bool \<times> 'e tensor4 \<times> int list) list) world"
  assumes "sample T (spy model) n w = (r, w1)"
  shows "\<exists>new. snd (net w1) = snd (net w) @ new \<and>
     length new \<le> nat (noise_steps (self w) - 1) \<and>
     (\<forall>k<length new. new ! k =
        (False, fst (snd (new ! k)),
         replicate (nat n) (counter T (noise_steps (self w) - 1 - int k)))) \<and>
     (\<not> isl r \<longrightarrow> length new = nat (noise_steps (self w) - 1))"
proof -
  let ?N = "noise_steps (self w)"
  let ?js = "rev [1..?N - 1]"
  have loop: ?thesis
    if l: "sample_loop T (spy model) n ?js x0 (w\<lparr>training := False, gen := g\<rparr>) = (r2, w2)"
      and c: "snd (net w1) = snd (net w2)" and rr: "isl r = isl r2" for x0 g r2 w2
  proof -
    from sample_loop_spy [OF l] obtain new where
      new: "snd (net w2) = snd (net w) @ new"
        "map (\<lambda>e. snd (snd e)) new
           = map (\<lambda>j. replicate (nat n) (counter T j)) (take (length new) ?js)"
        "\<forall>e\<in>set new. fst e = False"
        "length new \<le> length ?js" "\<not> isl r2 \<longrightarrow> length new = length ?js"
      by auto
    have len: "length ?js = nat (?N - 1)" by simp
    have "new ! k = (False, fst (snd (new ! k)), replicate (nat n) (counter T (?N - 1 - int k)))"
      if k: "k < length new" for k
    proof -
      have "snd (snd (new ! k)) = map (\<lambda>e. snd (snd e)) new ! k" using k by simp
      also have "\<dots> = replicate (nat n) (counter T (take (length new) ?js ! k))"
        using k new(4) by (simp add: new(2))
      also have "take (length new) ?js ! k = ?js ! k" using k by simp
      also have "?js ! k = ?N - 1 - int k"
        using k new(4) len by (intro rev_upto_nth) linarith
      finally have 2: "snd (snd (new ! k)) = replicate (nat n) (counter T (?N - 1 - int k))" .
      have 1: "fst (new ! k) = False" using new(3) k by simp
      show ?thesis using 1 2 by (cases "new ! k") auto
    qed
    with new len c rr show ?thesis
      by (intro exI [of _ new]) simp
  qed
  from sample_unfold [of T n w "spy model"] show ?thesis
  proof (elim disjE exE conjE)
    fix e g
    assume "sample T (spy model) n w = (Inl e, w\<lparr>training := False, gen := g\<rparr>)"
    with assms show ?thesis by (intro exI [of _ "[]"]) auto
  next
    fix x0 g
    assume "sample T (spy model) n w = (Inl RuntimeError, w\<lparr>training := False, gen := g\<rparr>)"
    with assms show ?thesis by (intro exI [of _ "[]"]) auto
  next
    fix x0 g e w2
    assume l: "sample_loop T (spy model) n ?js x0 (w\<lparr>training := False, gen := g\<rparr>) = (Inl e, w2)"
      and s: "sample T (spy model) n w = (Inl e, w2)"
    from s assms show ?thesis by (intro loop [OF l]) auto
  next
    fix x0 g x w2
    assume l: "sample_loop T (spy model) n ?js x0 (w\<lparr>training := False, gen := g\<rparr>) = (Inr x, w2)"
      and s: "sample T (spy model) n w = (Inr (postprocess T x), w2\<lparr>training := True\<rparr>)"
    from s assms show ?thesis by (intro loop [OF l]) auto
  qed
qed

lemma sample_Inr:
  fixes w :: "('e, 's) world"
  assumes len: "length (alpha (self w)) = nat (noise_steps (self w))"
      "length (alpha_hat (self w)) = nat (noise_steps (self w))"
      "length (beta (self w)) = nat (noise_steps (self w))"
    and cnt: "\<forall>j. 1 \<le> j \<and> j < noise_steps (self w) \<longrightarrow> int64 j \<and> counter T j = j"
    and n: "0 \<le> n" and sz: "0 \<le> img_size (self w)"
    and al: "t_alloc T (nat n)" "t_alloc T (nat (n * 3 * img_size (self w) * img_size (self w)))"
    and dev: "t_available T (device (self w))" "t_host T (device (self w))"
    and m: "\<And>mode s x t. has_shape (nat n) 3 (nat (img_size (self w))) (nat (img_size (self w))) x \<Longrightarrow>
        \<exists>p s1. model mode s x t = (Inr p, s1) \<and>
          has_shape (nat n) 3 (nat (img_size (self w))) (nat (img_size (self w))) p"
  shows "\<exists>img w1. sample T model n w = (Inr img, w1)"
proof -
  let ?sz = "img_size (self w)"
  let ?N = "noise_steps (self w)"
  from randn_Inr [OF n _ sz sz al(2), of "gen w"] obtain x0 g where
    r: "randn T n 3 ?sz ?sz (gen w) = (Inr x0, g)" "has_shape (nat n) 3 (nat ?sz) (nat ?sz) x0"
    by auto
  define w0 where "w0 = w\<lparr>training := False, gen := g\<rparr>"
  have self0: "self w0 = self w" by (simp add: w0_def)
  have "\<exists>x1 w1. sample_loop T model n (rev [1..?N - 1]) x0 w0 = (Inr x1, w1) \<and>
     has_shape (nat n) 3 (nat (img_size (self w0))) (nat (img_size (self w0))) x1"
  proof (rule sample_loop_Inr [where N = "nat ?N"])
    show "length (alpha (self w0)) = nat ?N" "length (alpha_hat (self w0)) = nat ?N"
      "length (beta (self w0)) = nat ?N" "0 \<le> img_size (self w0)" "0 \<le> n"
      "t_alloc T (nat n)" "t_alloc T (nat (n * 3 * img_size (self w0) * img_size (self w0)))"
      "t_available T (device (self w0))" "t_host T (device (self w0))"
      using len sz n al dev by (simp_all add: self0)
    show "\<forall>j\<in>set (rev [1..?N - 1]). 1 \<le> j \<and> j < int (nat ?N) \<and> int64 j \<and> counter T j = j"
      using cnt by auto
    show "has_shape (nat n) 3 (nat (img_size (self w0))) (nat (img_size (self w0))) x0"
      using r(2) by (simp add: self0)
    show "\<exists>p s1. model mode s x t = (Inr p, s1) \<and>
          has_shape (nat n) 3 (nat (img_size (self w0))) (nat (img_size (self w0))) p"
      if "has_shape (nat n) 3 (nat (img_size (self w0))) (nat (img_size (self w0))) x"
      for mode s x t
      using m [of x mode s t] that by (simp add: self0)
  qed
  then obtain x1 w1 where "sample_loop T model n (rev [1..?N - 1]) x0 w0 = (Inr x1, w1)"
    by blast
  with r(1) dev(1) have "sample T model n w = (Inr (postprocess T x1), w1\<lparr>training := True\<rparr>)"
    by (simp add: sample_def w0_def)
  then show ?thesis by blast
qed

section \<open>The recording predictor changes nothing\<close>

lemma plain_simps [simp]:
  "self (plain w) = self w" "gen (plain w) = gen w" "training (plain w) = training w"
  "net (plain w) = fst (net w)"
  "plain (w\<lparr>gen := g\<rparr>) = (plain w)\<lparr>gen := g\<rparr>"
  "plain (w\<lparr>training := m\<rparr>) = (plain w)\<lparr>training := m\<rparr>"
  "plain (w\<lparr>net := (s, l)\<rparr>) = (plain w)\<lparr>net := s\<rparr>"
  by (simp_all add: plain_def)

lemma sample_step_plain:
  "sample_step T model n i x (plain w)
     = (fst (sample_step T (spy model) n i x w), plain (snd (sample_step T (spy model) n i x w)))"
  by (simp add: sample_step_def spy_def Let_def split_def split: sum.splits)

lemma sample_loop_plain:
  "sample_loop T model n js x (plain w)
     = (fst (sample_loop T (spy model) n js x w), plain (snd (sample_loop T (spy model) n js x w)))"
proof (induction js arbitrary: x w)
  case Nil
  show ?case by simp
next
  case (Cons i js)
  obtain r w1 where s: "sample_step T (spy model) n i x w = (r, w1)" by (cases "sample_step T (spy model) n i x w")
  have p: "sample_step T model n i x (plain w) = (r, plain w1)"
    using sample_step_plain [of T model n i x w] s by simp
  show ?case
    by (cases r) (simp_all add: s p Cons.IH)
qed

lemma sample_plain:
  "sample T model n (plain w)
     = (fst (sample T (spy model) n w), plain (snd (sample T (spy model) n w)))"
proof -
  let ?sz = "img_size (self w)"
  obtain rx g where r: "randn T n 3 ?sz ?sz (gen w) = (rx, g)"
    by (cases "randn T n 3 ?sz ?sz (gen w)")
  show ?thesis
  proof (cases rx)
    case (Inl e)
    then show ?thesis by (simp add: sample_def r Let_def)
  next
    case (Inr x0)
    let ?w1 = "w\<lparr>training := False, gen := g\<rparr>"
    let ?js = "rev [1..noise_steps (self w) - 1]"
    obtain r2 w2 where l: "sample_loop T (spy model) n ?js x0 ?w1 = (r2, w2)"
      by (cases "sample_loop T (spy model) n ?js x0 ?w1")
    have p: "sample_loop T model n ?js x0 ((plain w)\<lparr>training := False, gen := g\<rparr>) = (r2, plain w2)"
      using sample_loop_plain [of T model n ?js x0 ?w1] l by simp
    show ?thesis
      by (cases r2) (simp_all add: sample_def r Inr Let_def l p del: sample_loop.simps)
  qed
qed

section \<open>Pixels\<close>




section \<open>The small instance, evaluated\<close>

lemma counter_exact: "counter exact i = i"
  by (simp add: counter_def to_long_def)

lemma int64_small: "- (2 ^ 63) \<le> i \<Longrightarrow> i < 2 ^ 63 \<Longrightarrow> int64 i"
  by (simp add: int64_def)




lemma example_lengths:
  "length (alpha (self (example_world v m))) = nat (noise_steps (self (example_world v m)))"
  "length (alpha_hat (self (example_world v m))) = nat (noise_steps (self (example_world v m)))"
  "length (beta (self (example_world v m))) = nat (noise_steps (self (example_world v m)))"
  "img_size (self (example_world v m)) = 1"
  "noise_steps (self (example_world v m)) = 2"
  "device (self (example_world v m)) = ''cpu''"
  by (simp_all add: example_world_def example_diffusion_def)

lemma example_sample_Inr:
  "\<exists>img w1. sample exact zero_predictor 1 (example_world v m) = (Inr img, w1)"
  by (rule sample_Inr)
    (auto simp: example_lengths counter_exact int64_def zero_predictor_def intro: has_shape_tmap)



section \<open>32-bit floats, evaluated\<close>




lemma float32_machine [simp]:
  "t_fits (float32 U) v \<longleftrightarrow> \<bar>v\<bar> \<le> (2 - 1 / 2 ^ 23) * 2 ^ 127"
  "t_alloc (float32 U) = t_alloc U" "t_available (float32 U) = t_available U"
  "t_host (float32 U) = t_host U"
  by (simp_all add: float32_def)

lemma coarse_simps [simp]:
  "t_alloc coarse k \<longleftrightarrow> k \<le> 2 ^ 28" "t_available coarse dev \<longleftrightarrow> dev = ''cpu''"
  "t_host coarse dev \<longleftrightarrow> dev = ''cpu''"
  by (simp_all add: coarse_def)




















section \<open>The other instances, evaluated\<close>


lemma exact_cuda_simps [simp]:
  "t_scalar exact_cuda v = v" "t_add exact_cuda = (+)" "t_sub exact_cuda = (-)"
  "t_mul exact_cuda = (*)" "t_div exact_cuda = (/)" "t_sqrt exact_cuda = sqrt"
  "t_long exact_cuda = to_long" "t_fits exact_cuda v" "t_alloc exact_cuda k \<longleftrightarrow> k \<le> 2 ^ 28"
  "t_available exact_cuda dev \<longleftrightarrow> dev = ''cpu'' \<or> dev = ''cuda''"
  "t_host exact_cuda dev \<longleftrightarrow> dev = ''cpu''"
  by (simp_all add: exact_cuda_def exact_def)









lemma recording_sample_Inr:
  assumes "d = example3 \<or> d = example_diffusion"
  shows "\<exists>img w1. sample exact (spy zero_predictor) 1 (recording_world d v m) = (Inr img, w1)"
proof (rule sample_Inr)
  show "length (alpha (self (recording_world d v m)))
      = nat (noise_steps (self (recording_world d v m)))"
    using assms by (auto simp: recording_world_def example3_def example_diffusion_def)
  show "length (alpha_hat (self (recording_world d v m)))
      = nat (noise_steps (self (recording_world d v m)))"
    using assms by (auto simp: recording_world_def example3_def example_diffusion_def)
  show "length (beta (self (recording_world d v m)))
      = nat (noise_steps (self (recording_world d v m)))"
    using assms by (auto simp: recording_world_def example3_def example_diffusion_def)
  show "\<forall>j. 1 \<le> j \<and> j < noise_steps (self (recording_world d v m)) \<longrightarrow>
      int64 j \<and> counter exact j = j"
    using assms
    by (auto simp: recording_world_def example3_def example_diffusion_def counter_exact int64_def)
  show "(0::int) \<le> 1" by simp
  show "0 \<le> img_size (self (recording_world d v m))"
    using assms by (auto simp: recording_world_def example3_def example_diffusion_def)
  show "t_alloc exact (nat 1)" by simp
  show "t_alloc exact (nat (1 * 3 * img_size (self (recording_world d v m))
      * img_size (self (recording_world d v m))))"
    using assms by (auto simp: recording_world_def example3_def example_diffusion_def)
  show "t_available exact (device (self (recording_world d v m)))"
    using assms by (auto simp: recording_world_def example3_def example_diffusion_def)
  show "t_host exact (device (self (recording_world d v m)))"
    using assms by (auto simp: recording_world_def example3_def example_diffusion_def)
  show "\<exists>p s1. spy zero_predictor mode s x t = (Inr p, s1) \<and>
      has_shape (nat 1) 3 (nat (img_size (self (recording_world d v m))))
        (nat (img_size (self (recording_world d v m)))) p"
    if "has_shape (nat 1) 3 (nat (img_size (self (recording_world d v m))))
        (nat (img_size (self (recording_world d v m)))) x" for mode s x t
    using that by (auto simp: spy_def zero_predictor_def intro: has_shape_tmap)
qed

section \<open>Claims about the construction\<close>




text \<open>
  C8, as the specification states it, fails: \<^verbatim>\<open>__init__\<close> checks nothing.
  \<^verbatim>\<open>Diffusion(noise_steps=1, beta_start=2, beta_end=-1)\<close>, whose parameters are invalid
  in each of the three ways, returns an object, with the schedule computed from them.
\<close>

theorem init_accepts_invalid_parameters:
  "\<not> valid_params 1 2 (- 1) \<and> init exact 1 2 (- 1) 64 ''cpu'' = Inr unvalidated"
  by (simp add: valid_params_def init_def prepare_noise_schedule_def linspace_def
      unvalidated_def Let_def)

text \<open>
  C8, amended. The construction does not look at the validity of the schedule
  parameters. It raises (RuntimeError) exactly when \<^verbatim>\<open>torch.linspace\<close> or \<^verbatim>\<open>.to(device)\<close>
  does: a bound that does not convert to an element without overflow, a negative number
  of steps, a tensor of that many elements that cannot be created, a device that is not
  available. In every other case, for valid and for invalid parameters alike, it returns
  an object that holds the parameters as given and three sequences of length
  \<open>noise_steps\<close>.
\<close>

theorem init_raises_iff:
  "(constructible T ns bs be dev \<longrightarrow>
      (\<exists>d. init T ns bs be sz dev = Inr d \<and> noise_steps d = ns \<and> beta_start d = bs \<and>
         beta_end d = be \<and> img_size d = sz \<and> device d = dev \<and>
         length (beta d) = nat ns \<and> length (alpha d) = nat ns \<and>
         length (alpha_hat d) = nat ns)) \<and>
   (\<not> constructible T ns bs be dev \<longrightarrow> init T ns bs be sz dev = Inl RuntimeError) \<and>
   (constructible T ns bs be dev \<longleftrightarrow>
      t_fits T bs \<and> t_fits T be \<and> 0 \<le> ns \<and> t_alloc T (nat ns) \<and> t_available T dev)"
proof (intro conjI impI)
  assume "constructible T ns bs be dev"
  then obtain d where d: "init T ns bs be sz dev = Inr d"
    using init_Inr by blast
  from d init_fields(2-6) [OF d] init_lengths [OF d]
  show "\<exists>d. init T ns bs be sz dev = Inr d \<and> noise_steps d = ns \<and> beta_start d = bs \<and>
         beta_end d = be \<and> img_size d = sz \<and> device d = dev \<and>
         length (beta d) = nat ns \<and> length (alpha d) = nat ns \<and>
         length (alpha_hat d) = nat ns"
    by blast
next
  assume "\<not> constructible T ns bs be dev"
  then show "init T ns bs be sz dev = Inl RuntimeError" by (rule init_Inl)
next
  show "constructible T ns bs be dev \<longleftrightarrow>
      t_fits T bs \<and> t_fits T be \<and> 0 \<le> ns \<and> t_alloc T (nat ns) \<and> t_available T dev"
    by (simp add: constructible_def)
qed

theorem init_raises_iff_witness:
  "\<not> valid_params 1 2 (- 1) \<and> constructible exact 1 2 (- 1) ''cpu'' \<and>
   (\<exists>d. init exact 1 2 (- 1) 64 ''cpu'' = Inr d \<and> noise_steps d = 1 \<and> length (beta d) = 1) \<and>
   \<not> constructible (float32 coarse) 1000 (1/10000) (2 ^ 128) ''cpu'' \<and>
   init (float32 coarse) 1000 (1/10000) (2 ^ 128) 64 ''cpu'' = Inl RuntimeError \<and>
   \<not> constructible exact 1000 (1/10000) (1/50) ''bogus'' \<and>
   init exact 1000 (1/10000) (1/50) 64 ''bogus'' = Inl RuntimeError \<and>
   \<not> constructible exact (- 1) (1/10000) (1/50) ''cpu'' \<and>
   init exact (- 1) (1/10000) (1/50) 64 ''cpu'' = Inl RuntimeError"
proof -
  have 1: "constructible exact 1 2 (- 1) ''cpu''"
    by (simp add: constructible_def)
  have 2: "\<not> constructible (float32 coarse) 1000 (1/10000) (2 ^ 128) ''cpu''"
    by (simp add: constructible_def)
  have 3: "\<not> constructible exact 1000 (1/10000) (1/50) ''bogus''"
    by (simp add: constructible_def)
  have 4: "\<not> constructible exact (- 1) (1/10000) (1/50) ''cpu''"
    by (simp add: constructible_def)
  have v: "\<not> valid_params 1 2 (- 1)" by (simp add: valid_params_def)
  from init_raises_iff [of exact 1 2 "- 1" "''cpu''" 64] 1
  have a: "\<exists>d. init exact 1 2 (- 1) 64 ''cpu'' = Inr d \<and> noise_steps d = 1 \<and> length (beta d) = 1"
    by auto
  from init_raises_iff [of "float32 coarse" 1000 "1/10000" "2 ^ 128" "''cpu''" 64] 2
  have b: "init (float32 coarse) 1000 (1/10000) (2 ^ 128) 64 ''cpu'' = Inl RuntimeError"
    by blast
  from init_raises_iff [of exact 1000 "1/10000" "1/50" "''bogus''" 64] 3
  have c: "init exact 1000 (1/10000) (1/50) 64 ''bogus'' = Inl RuntimeError"
    by blast
  from init_raises_iff [of exact "- 1" "1/10000" "1/50" "''cpu''" 64] 4
  have d: "init exact (- 1) (1/10000) (1/50) 64 ''cpu'' = Inl RuntimeError"
    by blast
  from v 1 a 2 b 3 c 4 d show ?thesis by blast
qed




section \<open>Claims about the forward process\<close>

text \<open>
  C1. The specification asks for the sum
  \<open>sqrt(alphaHat[t]) * x + sqrt(1 - alphaHat[t]) * epsilon\<close>. Line 35 multiplies the four
  factors instead. On the instance above, at timestep 1, a batch of one image whose
  three pixels are 0 and noise draws of value 1, the method returns the image of zeros
  (and the noise), where the sum is \<open>sqrt(7/8)\<close>, which is not zero.
\<close>

theorem noise_images_multiplies:
  "init exact 2 (1/2) (3/4) 1 ''cpu'' = Inr example_diffusion \<and>
   fst (noise_images exact [[[[0]], [[0]], [[0]]]] [1] (example_world 1 True))
     = Inr ([[[[0]], [[0]], [[0]]]], [[[[1]], [[1]], [[1]]]]) \<and>
   additive_form (alpha_hat example_diffusion ! 1) 0 1 \<noteq> 0"
  by (simp add: init_example noise_images_def index_select_def index1_def example_world_def
      example_diffusion_def randn_like_def randn1_def unsqueeze3_def tmul_def tensor_op_def
      broadcast_def additive_form_def Let_def)

text \<open>
  C7, as the specification states it, fails: the timesteps 0 and -1 lie outside
  \<open>[1, noise_steps)\<close> and are accepted; -1 reads the last entry of the schedule.
\<close>

theorem noise_images_accepts_zero_and_negative:
  "init exact 2 (1/2) (3/4) 1 ''cpu'' = Inr example_diffusion \<and>
   \<not> (1 \<le> (0::int) \<and> 0 < noise_steps example_diffusion) \<and>
   fst (noise_images exact [[[[1]]], [[[1]]]] [0, - 1] (example_world 1 True))
     = Inr ([[[[sqrt (1/2) * sqrt (1/2)]]], [[[sqrt (1/8) * sqrt (7/8)]]]], [[[[1]]], [[[1]]]])"
  by (simp add: init_example noise_images_def index_select_def index1_def example_world_def
      example_diffusion_def randn_like_def randn1_def unsqueeze3_def tmul_def tensor_op_def
      broadcast_def Let_def)

text \<open>
  C7, amended. On a constructed object, \<^verbatim>\<open>noise_images\<close> raises IndexError exactly when
  some timestep lies outside \<open>[-noise_steps, noise_steps)\<close>. When all of them lie
  inside and the batch has as many images as there are timesteps, it raises nothing:
  it returns a batch of the shape of the images and the noise drawn, and the image
  \<open>a\<close> of the batch is computed from the entry of \<open>alphaHat\<close> at \<open>t[a]\<close> when
  \<open>t[a] \<ge> 0\<close> and at \<open>noise_steps + t[a]\<close> when \<open>t[a] < 0\<close>: timestep 0 reads the
  first entry and timestep \<open>-k\<close> the entry \<open>noise_steps - k\<close>.
\<close>

theorem noise_images_index_domain:
  fixes w :: "('e, 's) world"
  assumes "init T ns bs be sz dev = Inr (self w)"
  shows "(fst (noise_images T x t w) = Inl IndexError \<longleftrightarrow> (\<exists>i\<in>set t. i < - ns \<or> ns \<le> i)) \<and>
    ((\<forall>i\<in>set t. - ns \<le> i \<and> i < ns) \<and> has_shape (length t) c h wd x \<longrightarrow>
       (\<exists>noisy. fst (noise_images T x t w) = Inr (noisy, fst (randn_like x (gen w))) \<and>
          has_shape (length t) c h wd noisy \<and>
          (\<forall>a<length t. \<forall>b<c. \<forall>k<h. \<forall>l<wd.
             noisy ! a ! b ! k ! l =
               t_mul T
                 (t_mul T
                    (t_mul T
                       (t_sqrt T (alpha_hat (self w)
                          ! nat (if t ! a < 0 then t ! a + ns else t ! a)))
                       (x ! a ! b ! k ! l))
                    (t_sqrt T (t_sub T (t_scalar T 1)
                       (alpha_hat (self w)
                          ! nat (if t ! a < 0 then t ! a + ns else t ! a)))))
                 (fst (randn_like x (gen w)) ! a ! b ! k ! l))))"
proof -
  have len: "int (length (alpha_hat (self w))) = ns"
    using init_lengths(3) [OF assms] init_fields(1) [OF assms] by simp
  have a: "fst (noise_images T x t w) = Inl IndexError \<longleftrightarrow> (\<exists>i\<in>set t. i < - ns \<or> ns \<le> i)"
    using noise_images_index_error [of T x t w] by (simp add: len)
  have b: "\<exists>noisy. fst (noise_images T x t w) = Inr (noisy, fst (randn_like x (gen w))) \<and>
          has_shape (length t) c h wd noisy \<and>
          (\<forall>a<length t. \<forall>b<c. \<forall>k<h. \<forall>l<wd.
             noisy ! a ! b ! k ! l =
               t_mul T
                 (t_mul T
                    (t_mul T
                       (t_sqrt T (alpha_hat (self w)
                          ! nat (if t ! a < 0 then t ! a + ns else t ! a)))
                       (x ! a ! b ! k ! l))
                    (t_sqrt T (t_sub T (t_scalar T 1)
                       (alpha_hat (self w)
                          ! nat (if t ! a < 0 then t ! a + ns else t ! a)))))
                 (fst (randn_like x (gen w)) ! a ! b ! k ! l))"
    if r: "\<forall>i\<in>set t. - ns \<le> i \<and> i < ns" and s: "has_shape (length t) c h wd x"
  proof (cases "index_select (alpha_hat (self w)) t")
    case (Inl e)
    then have "\<exists>i\<in>set t. i < - int (length (alpha_hat (self w))) \<or> int (length (alpha_hat (self w))) \<le> i"
      using index_select_Inl [of "alpha_hat (self w)" t e] by simp
    with r len show ?thesis by auto
  next
    case (Inr ah)
    have e: "ah ! a = alpha_hat (self w) ! nat (if t ! a < 0 then t ! a + ns else t ! a)"
      if "a < length t" for a
      using index_select_nth [OF Inr that] by (simp add: len)
    from noise_images_Inr [OF Inr s, of T] e show ?thesis by auto
  qed
  from a b show ?thesis by blast
qed

theorem noise_images_index_domain_witness:
  "init exact 2 (1/2) (3/4) 1 ''cpu'' = Inr (self (example_world 1 True)) \<and>
   fst (noise_images exact [[[[1]]]] [2] (example_world 1 True)) = Inl IndexError \<and>
   (\<exists>noisy. fst (noise_images exact [[[[1]]], [[[1]]]] [0, - 1] (example_world 1 True))
      = Inr (noisy, fst (randn_like [[[[1::real]]], [[[1]]]] (gen (example_world 1 True)))) \<and>
      noisy ! 1 ! 0 ! 0 ! 0 =
        sqrt (alpha_hat example_diffusion ! 1) * 1 * sqrt (1 - alpha_hat example_diffusion ! 1) *
        fst (randn_like [[[[1::real]]], [[[1]]]] (gen (example_world 1 True))) ! 1 ! 0 ! 0 ! 0)"
proof -
  have i: "init exact 2 (1/2) (3/4) 1 ''cpu'' = Inr (self (example_world 1 True))"
    by (simp add: init_example example_world_def)
  have s: "has_shape (length [0, - 1 :: int]) 1 1 1 [[[[1::real]]], [[[1]]]]"
    by (simp add: has_shape_def)
  have sf: "self (example_world 1 True) = example_diffusion"
    by (simp add: example_world_def)
  have r: "\<forall>i\<in>set [0, - 1 :: int]. - 2 \<le> i \<and> i < 2" by simp
  from noise_images_index_domain [OF i, of "[[[[1]]]]" "[2]" 1 1 1]
  have e: "fst (noise_images exact [[[[1]]]] [2] (example_world 1 True)) = Inl IndexError"
    by simp
  note ex = noise_images_index_domain [OF i, of "[[[[1]]], [[[1]]]]" "[0, - 1]" 1 1 1,
      THEN conjunct2, rule_format, OF conjI [OF r s]]
  have "\<exists>noisy. fst (noise_images exact [[[[1]]], [[[1]]]] [0, - 1] (example_world 1 True))
      = Inr (noisy, fst (randn_like [[[[1::real]]], [[[1]]]] (gen (example_world 1 True)))) \<and>
      noisy ! 1 ! 0 ! 0 ! 0 =
        sqrt (alpha_hat example_diffusion ! 1) * 1 * sqrt (1 - alpha_hat example_diffusion ! 1) *
        fst (randn_like [[[[1::real]]], [[[1]]]] (gen (example_world 1 True))) ! 1 ! 0 ! 0 ! 0"
    using ex by (auto simp: sf)
  with e i show ?thesis by blast
qed



section \<open>Claims about the reverse process\<close>







text \<open>
  C9, as the specification states it, fails: a predictor in evaluation mode before the
  call is in training mode after it.
\<close>

theorem sample_switches_mode:
  "\<not> training (example_world 0 False) \<and>
   training (snd (sample exact zero_predictor 1 (example_world 0 False)))"
proof -
  obtain img w1 where s: "sample exact zero_predictor 1 (example_world 0 False) = (Inr img, w1)"
    using example_sample_Inr [of 0 False] by blast
  from sample_frame_aux(2) [OF s] have "training w1" by simp
  with s show ?thesis by (simp add: example_world_def)
qed

text \<open>
  C9, amended. Let the predictor record its invocations, which changes neither the
  result of \<^verbatim>\<open>sample\<close> nor the world it leaves. \<^verbatim>\<open>sample\<close> leaves the \<^verbatim>\<open>Diffusion\<close> object
  as it is, and it does set the mode of the predictor: \<^verbatim>\<open>model.eval()\<close> before the loop,
  so that every invocation of the predictor made by the call is in evaluation mode,
  whatever the mode before the call, and \<^verbatim>\<open>model.train()\<close> after the loop, so that the
  predictor is in training mode after a call that returns a batch, and in evaluation
  mode after a call that raises. A call that returns has invoked the predictor
  \<open>noise_steps - 1\<close> times.
\<close>

theorem sample_frame:
  fixes w :: "('e, 's \<times> (bool \<times> 'e tensor4 \<times> int list) list) world"
  assumes "sample T (spy model) n w = (r, w1)"
  shows "sample T model n (plain w) = (r, plain w1) \<and>
     self w1 = self w \<and> self (plain w1) = self (plain w) \<and>
     (training w1 \<longleftrightarrow> \<not> isl r) \<and> (training (plain w1) \<longleftrightarrow> \<not> isl r) \<and>
     (\<exists>new. snd (net w1) = snd (net w) @ new \<and> (\<forall>e\<in>set new. \<not> fst e) \<and>
        (\<not> isl r \<longrightarrow> length new = nat (noise_steps (self w) - 1)))"
proof (intro conjI)
  show "sample T model n (plain w) = (r, plain w1)"
    using sample_plain [of T model n w] assms by simp
  show 1: "self w1 = self w" using assms by (rule sample_frame_aux(1))
  show 2: "training w1 \<longleftrightarrow> \<not> isl r" using assms by (rule sample_frame_aux(2))
  show "self (plain w1) = self (plain w)" using 1 by simp
  show "training (plain w1) \<longleftrightarrow> \<not> isl r" using 2 by simp
  from sample_spy [OF assms] obtain new where
    new: "snd (net w1) = snd (net w) @ new"
      "\<forall>k<length new. new ! k =
         (False, fst (snd (new ! k)),
          replicate (nat n) (counter T (noise_steps (self w) - 1 - int k)))"
      "\<not> isl r \<longrightarrow> length new = nat (noise_steps (self w) - 1)"
    by blast
  have "\<forall>e\<in>set new. \<not> fst e"
  proof
    fix e assume "e \<in> set new"
    then obtain k where k: "k < length new" "e = new ! k"
      by (auto simp: in_set_conv_nth)
    with new(2) have "e = (False, fst (snd (new ! k)),
          replicate (nat n) (counter T (noise_steps (self w) - 1 - int k)))"
      by simp
    then show "\<not> fst e" by simp
  qed
  with new(1,3)
  show "\<exists>new. snd (net w1) = snd (net w) @ new \<and> (\<forall>e\<in>set new. \<not> fst e) \<and>
        (\<not> isl r \<longrightarrow> length new = nat (noise_steps (self w) - 1))"
    by blast
qed

theorem sample_frame_witness:
  "\<exists>img w1. sample exact (spy zero_predictor) 1 (recording_world example_diffusion 0 False)
       = (Inr img, w1) \<and>
     sample exact zero_predictor 1 (plain (recording_world example_diffusion 0 False))
       = (Inr img, plain w1) \<and>
     self w1 = example_diffusion \<and> training w1 \<and> length (snd (net w1)) = 1 \<and>
     \<not> fst (snd (net w1) ! 0)"
proof -
  let ?w = "recording_world example_diffusion 0 False"
  obtain img w1 where s: "sample exact (spy zero_predictor) 1 ?w = (Inr img, w1)"
    using recording_sample_Inr [of example_diffusion 0 False] by blast
  have f: "noise_steps (self ?w) = 2" "snd (net ?w) = []" "self ?w = example_diffusion"
    by (simp_all add: recording_world_def example_diffusion_def)
  from sample_frame [OF s] obtain new where
    p: "sample exact zero_predictor 1 (plain ?w) = (Inr img, plain w1)"
    and fr: "self w1 = self ?w" "training w1 \<longleftrightarrow> \<not> isl (Inr img :: error + 8 word tensor4)"
    and new: "snd (net w1) = snd (net ?w) @ new" "\<forall>e\<in>set new. \<not> fst e"
      "\<not> isl (Inr img :: error + 8 word tensor4) \<longrightarrow> length new = nat (noise_steps (self ?w) - 1)"
    by blast
  from new(3) have l: "length new = 1" by (simp add: f(1))
  from new(1) have n: "snd (net w1) = new" by (simp add: f)
  from l have "new ! 0 \<in> set new" by simp
  with new(2) have m: "\<not> fst (new ! 0)" by blast
  from fr have "self w1 = example_diffusion" "training w1" by (simp_all add: f)
  with s p l m show ?thesis unfolding n [symmetric] by blast
qed




end
